theory Spec2Isabelle
  imports Complex_Main
begin

section \<open>Tensors and the PyTorch primitives used by the quantizers\<close>

text \<open>
  The module \<^verbatim>\<open>enhancing/modules/stage1/quantizers.py\<close> works on PyTorch tensors. A
  tensor is modelled as its shape together with its entries in row-major order, which is
  how a contiguous tensor is stored; \<^verbatim>\<open>view\<close> then changes the shape and keeps the
  entries. Entries of a \<^verbatim>\<open>FloatTensor\<close> are modelled as real numbers: rounding,
  infinities and NaN are not part of the model, with one exception, the mean of an empty
  tensor, which PyTorch returns as NaN and which is kept apart as \<open>None\<close>.
  An exception raised by Python or PyTorch is a value of type \<open>error\<close>.
\<close>

datatype error =
    ShapeError
  | NameError string
  | TypeError
  | ZeroDivisionError
  | RuntimeError
  | IndexError

datatype 'a tensor = Tensor (shape: "nat list") (data: "'a list")

definition wf_tensor :: "'a tensor \<Rightarrow> bool" where
  "wf_tensor t \<longleftrightarrow> length (data t) = prod_list (shape t)"

definition bind_err :: "error + 'a \<Rightarrow> ('a \<Rightarrow> error + 'b) \<Rightarrow> error + 'b" where
  "bind_err m f = (case m of Inl e \<Rightarrow> Inl e | Inr x \<Rightarrow> f x)"

text \<open>\<^verbatim>\<open>x.view(-1, D)\<close>: the number of entries must be a multiple of \<open>D\<close>, and
  \<open>D = 0\<close> leaves the first dimension ambiguous.\<close>

definition view_rows :: "nat \<Rightarrow> 'a tensor \<Rightarrow> error + 'a tensor" where
  "view_rows D t =
     (if D = 0 \<or> length (data t) mod D \<noteq> 0 then Inl ShapeError
      else Inr (Tensor [length (data t) div D, D] (data t)))"

text \<open>\<^verbatim>\<open>x.view(shp)\<close> with a size object: the new shape must hold exactly the
  entries of \<open>x\<close>.\<close>

definition view :: "nat list \<Rightarrow> 'a tensor \<Rightarrow> error + 'a tensor" where
  "view shp t =
     (if prod_list shp = length (data t) then Inr (Tensor shp (data t))
      else Inl ShapeError)"

text \<open>\<^verbatim>\<open>x.view(*shp)\<close> passes the sizes as separate arguments; with none at all
  (\<open>shp\<close> empty) PyTorch rejects the call with TypeError.\<close>

definition view_args :: "nat list \<Rightarrow> 'a tensor \<Rightarrow> error + 'a tensor" where
  "view_args shp t = (if shp = [] then Inl TypeError else view shp t)"

text \<open>The vectors along the last dimension (\<^verbatim>\<open>dim=-1\<close>), in row-major order. For a
  2-D tensor these are its rows.\<close>

definition inner_dim :: "nat list \<Rightarrow> nat" where
  "inner_dim s = (if s = [] then 1 else last s)"

definition vectors :: "'a tensor \<Rightarrow> 'a list list" where
  "vectors t =
     map (\<lambda>k. take (inner_dim (shape t)) (drop (k * inner_dim (shape t)) (data t)))
       [0..<prod_list (butlast (shape t))]"

text \<open>\<^verbatim>\<open>F.normalize(x, dim=-1)\<close> with PyTorch's defaults \<^verbatim>\<open>p=2\<close> and
  \<^verbatim>\<open>eps=1e-12\<close>: every vector \<open>v\<close> along the last dimension becomes
  \<open>v / max(\<parallel>v\<parallel>\<^sub>2, eps)\<close>.\<close>

definition sq_sum :: "real list \<Rightarrow> real" where
  "sq_sum v = sum_list (map (\<lambda>x. x ^ 2) v)"

definition l2 :: "real list \<Rightarrow> real" where
  "l2 v = sqrt (sq_sum v)"

definition eps :: real where
  "eps = 1 / 10 ^ 12"

definition F_normalize_vec :: "real list \<Rightarrow> real list" where
  "F_normalize_vec v = map (\<lambda>x. x / max (l2 v) eps) v"

definition F_normalize :: "real tensor \<Rightarrow> real tensor" where
  "F_normalize t = Tensor (shape t) (concat (map F_normalize_vec (vectors t)))"

text \<open>\<^verbatim>\<open>self.norm = lambda x: F.normalize(x, dim=-1) if use_norm else x\<close>\<close>

definition norm_fn :: "bool \<Rightarrow> real tensor \<Rightarrow> real tensor" where
  "norm_fn use_norm x = (if use_norm then F_normalize x else x)"

text \<open>The same function on one vector of the last dimension.\<close>

definition norm_vec :: "bool \<Rightarrow> real list \<Rightarrow> real list" where
  "norm_vec use_norm v = (if use_norm then F_normalize_vec v else v)"

text \<open>\<^verbatim>\<open>torch.einsum('b d, n d -> b n', x, y)\<close> at one pair of rows.\<close>

definition dot :: "real list \<Rightarrow> real list \<Rightarrow> real" where
  "dot u v = sum_list (map2 (*) u v)"

text \<open>\<^verbatim>\<open>torch.argmin\<close> and \<^verbatim>\<open>argmax\<close> along the last dimension: for every
  vector the index of its first minimal (maximal) entry. PyTorch raises when the
  dimension reduced has size zero.\<close>

fun argmin_from :: "real list \<Rightarrow> nat \<Rightarrow> nat \<Rightarrow> real \<Rightarrow> nat" where
  "argmin_from [] i best bv = best"
| "argmin_from (x # xs) i best bv =
     (if x < bv then argmin_from xs (Suc i) i x else argmin_from xs (Suc i) best bv)"

definition argmin_vec :: "real list \<Rightarrow> nat" where
  "argmin_vec xs = (case xs of [] \<Rightarrow> 0 | x # rest \<Rightarrow> argmin_from rest 1 0 x)"

definition argmin_last :: "real tensor \<Rightarrow> error + nat tensor" where
  "argmin_last d =
     (if inner_dim (shape d) = 0 then Inl IndexError
      else Inr (Tensor (butlast (shape d)) (map argmin_vec (vectors d))))"

fun argmax_from :: "real list \<Rightarrow> nat \<Rightarrow> nat \<Rightarrow> real \<Rightarrow> nat" where
  "argmax_from [] i best bv = best"
| "argmax_from (x # xs) i best bv =
     (if bv < x then argmax_from xs (Suc i) i x else argmax_from xs (Suc i) best bv)"

definition argmax_vec :: "real list \<Rightarrow> nat" where
  "argmax_vec xs = (case xs of [] \<Rightarrow> 0 | x # rest \<Rightarrow> argmax_from rest 1 0 x)"

definition argmax_last :: "real tensor \<Rightarrow> error + nat tensor" where
  "argmax_last d =
     (if inner_dim (shape d) = 0 then Inl IndexError
      else Inr (Tensor (butlast (shape d)) (map argmax_vec (vectors d))))"

text \<open>\<^verbatim>\<open>self.embedding(indices)\<close>: the rows of the weight matrix picked by the indices,
  in a new last dimension. An index outside the table raises.\<close>

definition row :: "'a tensor \<Rightarrow> nat \<Rightarrow> 'a list" where
  "row w n = take (inner_dim (shape w)) (drop (n * inner_dim (shape w)) (data w))"

definition embedding_lookup :: "real tensor \<Rightarrow> nat tensor \<Rightarrow> error + real tensor" where
  "embedding_lookup w idx =
     (if \<forall>i \<in> set (data idx). i < hd (shape w)
      then Inr (Tensor (shape idx @ [inner_dim (shape w)]) (concat (map (row w) (data idx))))
      else Inl IndexError)"

text \<open>Elementwise arithmetic on tensors of one shape, and \<^verbatim>\<open>torch.mean\<close> over all
  entries (NaN on an empty tensor).\<close>

definition tsub :: "real tensor \<Rightarrow> real tensor \<Rightarrow> real tensor" where
  "tsub a b = Tensor (shape a) (map2 (-) (data a) (data b))"

definition tadd :: "real tensor \<Rightarrow> real tensor \<Rightarrow> real tensor" where
  "tadd a b = Tensor (shape a) (map2 (+) (data a) (data b))"

definition tsquare :: "real tensor \<Rightarrow> real tensor" where
  "tsquare a = Tensor (shape a) (map (\<lambda>x. x ^ 2) (data a))"

definition mean_list :: "real list \<Rightarrow> real option" where
  "mean_list xs = (if xs = [] then None else Some (sum_list xs / real (length xs)))"

definition tmean :: "real tensor \<Rightarrow> real option" where
  "tmean a = mean_list (data a)"

definition zeros_like :: "real tensor \<Rightarrow> real tensor" where
  "zeros_like a = Tensor (shape a) (replicate (length (data a)) 0)"

text \<open>Arithmetic on scalars that may be NaN.\<close>

definition lift2 :: "(real \<Rightarrow> real \<Rightarrow> real) \<Rightarrow> real option \<Rightarrow> real option \<Rightarrow> real option" where
  "lift2 f a b = (case a of None \<Rightarrow> None | Some x \<Rightarrow> (case b of None \<Rightarrow> None | Some y \<Rightarrow> Some (f x y)))"

text \<open>\<^verbatim>\<open>torch.stack(ts, dim=-1)\<close>: the tensors, all of one shape, laid along a new last
  dimension; an empty list raises. The per-stage losses are scalars, so their stack is
  the list itself, and its mean is NaN as soon as one of them is.\<close>

definition stack_last :: "'a tensor list \<Rightarrow> error + 'a tensor" where
  "stack_last ts =
     (case ts of
        [] \<Rightarrow> Inl RuntimeError
      | t # _ \<Rightarrow>
          if \<forall>u \<in> set ts. shape u = shape t
          then Inr (Tensor (shape t @ [length ts])
                 (concat (map (\<lambda>p. map (\<lambda>u. data u ! p) ts) [0..<length (data t)])))
          else Inl RuntimeError)"

definition stack_scalars :: "real option list \<Rightarrow> error + real option list" where
  "stack_scalars ls = (if ls = [] then Inl RuntimeError else Inr ls)"

definition mean_scalars :: "real option list \<Rightarrow> real option" where
  "mean_scalars ls = (if None \<in> set ls then None else mean_list (map the ls))"

section \<open>VectorQuantizer\<close>

record VectorQuantizer =
  straight_through :: bool
  use_norm :: bool
  n_embed :: nat
  embed_dim :: nat
  beta :: real
  use_residual :: bool
  num_quantizers :: "int option"
  weight :: "real tensor"

text \<open>
  The constructor. \<^verbatim>\<open>super().__init__(use_norm=use_norm)\<close> leaves the base class's
  default \<^verbatim>\<open>straight_through = True\<close>. \<open>w0\<close> gives the value that \<^verbatim>\<open>uniform_\<close>
  draws for each entry of the \<open>n_embed \<times> embed_dim\<close> weight matrix; the extra
  keyword arguments \<^verbatim>\<open>**kwargs\<close> are ignored by the code and left out;
  \<^verbatim>\<open>1.0 / self.n_embed\<close> divides by zero when \<open>n_embed = 0\<close>.
\<close>

definition VectorQuantizer_init ::
  "nat \<Rightarrow> nat \<Rightarrow> real \<Rightarrow> bool \<Rightarrow> bool \<Rightarrow> int option \<Rightarrow> (nat \<Rightarrow> real)
     \<Rightarrow> error + VectorQuantizer" where
  "VectorQuantizer_init embed_dim' n_embed' beta' use_norm' use_residual' num_quantizers' w0 =
     (if n_embed' = 0 then Inl ZeroDivisionError
      else Inr \<lparr> straight_through = True, use_norm = use_norm', n_embed = n_embed',
                embed_dim = embed_dim', beta = beta', use_residual = use_residual',
                num_quantizers = num_quantizers',
                weight = Tensor [n_embed', embed_dim'] (map w0 [0..<n_embed' * embed_dim']) \<rparr>)"

text \<open>What the constructor establishes and no method changes: the weight matrix has
  \<open>n_embed\<close> rows of \<open>embed_dim\<close> entries, and there is at least one row.\<close>

definition wf_quantizer :: "VectorQuantizer \<Rightarrow> bool" where
  "wf_quantizer self \<longleftrightarrow>
     0 < n_embed self \<and> shape (weight self) = [n_embed self, embed_dim self] \<and>
     wf_tensor (weight self)"

text \<open>
  The distance matrix of \<^verbatim>\<open>quantize\<close>, lines 76 to 78: entry \<open>(k, n)\<close> is
  \<open>sum(z\<^sub>k ** 2) + sum(e\<^sub>n ** 2) - 2 * (z\<^sub>k \<cdot> e\<^sub>n)\<close> for row \<open>z\<^sub>k\<close> of the first
  matrix and row \<open>e\<^sub>n\<close> of the second. The einsum needs rows of one length.
\<close>

definition dist_entry :: "real list \<Rightarrow> real list \<Rightarrow> real" where
  "dist_entry zr e = sq_sum zr + sq_sum e - 2 * dot zr e"

definition distances :: "real tensor \<Rightarrow> real tensor \<Rightarrow> error + real tensor" where
  "distances zs es =
     (if inner_dim (shape zs) \<noteq> inner_dim (shape es) then Inl RuntimeError
      else Inr (Tensor [length (vectors zs), length (vectors es)]
             (concat (map (\<lambda>zr. map (dist_entry zr) (vectors es)) (vectors zs)))))"

text \<open>\<^verbatim>\<open>VectorQuantizer.quantize\<close>, lines 72 to 90. \<^verbatim>\<open>detach\<close> is the identity on
  values. \<^verbatim>\<open>z.shape[:2]\<close> is \<open>take 2 (shape z)\<close>.\<close>

definition quantize ::
  "VectorQuantizer \<Rightarrow> real tensor \<Rightarrow> error + (real tensor \<times> real option \<times> nat tensor)" where
  "quantize self z =
     bind_err (view_rows (embed_dim self) z) (\<lambda>z_reshaped.
     let z_reshaped_norm = norm_fn (use_norm self) z_reshaped;
         embedding_norm = norm_fn (use_norm self) (weight self)
     in
     bind_err (distances z_reshaped_norm embedding_norm) (\<lambda>d.
     bind_err (argmin_last d) (\<lambda>am.
     bind_err (view_args (take 2 (shape z)) (Tensor (shape am @ [1]) (data am))) (\<lambda>encoding_indices.
     bind_err (embedding_lookup (weight self) encoding_indices) (\<lambda>e.
     bind_err (view (shape z) e) (\<lambda>z_q.
     let z_qnorm = norm_fn (use_norm self) z_q;
         z_norm = norm_fn (use_norm self) z;
         loss = lift2 (+) (tmean (tsquare (tsub z_qnorm z_norm)))
                  (lift2 (*) (Some (beta self)) (tmean (tsquare (tsub z_qnorm z_norm))))
     in Inr (z_qnorm, loss, encoding_indices)))))))"

text \<open>
  \<^verbatim>\<open>BaseQuantizer.forward\<close>, lines 29 to 54, on a VectorQuantizer. The loop of the
  residual branch carries \<open>z_q\<close>, \<open>residual\<close> and the two lists; \<^verbatim>\<open>clone\<close> copies values,
  \<^verbatim>\<open>sub_\<close> and \<^verbatim>\<open>add_\<close> replace the value of their target. \<^verbatim>\<open>range(None)\<close> raises
  TypeError, and \<^verbatim>\<open>range(k)\<close> runs \<open>nat k\<close> times (not at all for \<open>k \<le> 0\<close>).
  \<open>forward_body\<close> is lines 30 to 48, which compute \<open>z_q\<close>, \<open>loss\<close> and
  \<open>encoding_indices\<close>; \<open>forward\<close> adds the straight-through lines 50 to 54.
\<close>

type_synonym loop_state = "real tensor \<times> real tensor \<times> real option list \<times> nat tensor list"

fun residual_loop :: "VectorQuantizer \<Rightarrow> nat \<Rightarrow> loop_state \<Rightarrow> error + loop_state" where
  "residual_loop self 0 st = Inr st"
| "residual_loop self (Suc n) (z_q, residual, losses, encoding_indices) =
     bind_err (quantize self residual) (\<lambda>(z_qi, loss, indices).
       residual_loop self n
         (tadd z_q z_qi, tsub residual z_qi, losses @ [loss], encoding_indices @ [indices]))"

definition forward_body ::
  "VectorQuantizer \<Rightarrow> real tensor \<Rightarrow> error + (real tensor \<times> real option \<times> nat tensor)" where
  "forward_body self z =
     (if \<not> use_residual self then quantize self z
      else
        (case num_quantizers self of
           None \<Rightarrow> Inl TypeError
         | Some k \<Rightarrow>
             bind_err (residual_loop self (nat k) (zeros_like z, z, [], []))
               (\<lambda>(z_q, residual, losses, encoding_indices).
                  bind_err (stack_scalars losses) (\<lambda>losses'.
                  bind_err (stack_last encoding_indices) (\<lambda>encoding_indices'.
                    Inr (z_q, mean_scalars losses', encoding_indices'))))))"

definition forward ::
  "VectorQuantizer \<Rightarrow> real tensor \<Rightarrow> error + (real tensor \<times> real option \<times> nat tensor)" where
  "forward self z =
     bind_err (forward_body self z) (\<lambda>(z_q, loss, encoding_indices).
       Inr (if straight_through self then tadd z (tsub z_q z) else z_q,
            loss, encoding_indices))"

text \<open>
  A tensor as a caller passes it. A value of type \<open>tensor\<close> lists the entries in row-major
  order and has no strides: it stands for a contiguous tensor. \<^verbatim>\<open>z.view(-1, embed_dim)\<close>
  of line 73 raises RuntimeError when the strides of \<^verbatim>\<open>z\<close> do not allow the view, as after
  \<^verbatim>\<open>permute(1, 0, 2)\<close> on a tensor of shape \<open>(b, t, embed_dim)\<close> with \<open>b, t > 1\<close>. An
  argument therefore carries, beside its entries, whether its strides allow that view
  (they do for every contiguous tensor) and whether it is dense and non-overlapping:
  \<^verbatim>\<open>clone\<close> keeps the strides of such a tensor and returns a contiguous tensor otherwise.
  In residual mode \<^verbatim>\<open>quantize\<close> is called on a clone of a clone of \<^verbatim>\<open>z\<close>, so there the view
  fails only for a dense tensor whose strides do not allow it. The other views of
  \<^verbatim>\<open>quantize\<close> and the arithmetic of \<^verbatim>\<open>forward\<close> accept any strides.
\<close>

record tensor_arg =
  arg_tensor :: "real tensor"
  arg_view_ok :: bool
  arg_dense :: bool

definition contiguous :: "real tensor \<Rightarrow> tensor_arg" where
  "contiguous z = \<lparr>arg_tensor = z, arg_view_ok = True, arg_dense = True\<rparr>"

definition forward_call ::
  "VectorQuantizer \<Rightarrow> tensor_arg \<Rightarrow> error + (real tensor \<times> real option \<times> nat tensor)" where
  "forward_call self a =
     (if arg_view_ok a \<or> (use_residual self \<and> \<not> arg_dense a) then forward self (arg_tensor a)
      else if use_residual self \<and> num_quantizers self = None then Inl TypeError
      else Inl RuntimeError)"

section \<open>Name resolution in \<^verbatim>\<open>GumbelQuantizer.__init__\<close>\<close>

text \<open>
  A Python name is looked up in the local scope of the function, then among the module's
  globals, then among the builtins. The local scope of \<^verbatim>\<open>GumbelQuantizer.__init__\<close> is
  its parameter list; the module's globals are its imports and its three classes. No
  builtin is called \<^verbatim>\<open>straight_through\<close>.
\<close>

datatype pyval = PBool bool | PInt int | PFloat real | PNone | PObject

definition module_globals :: "(string \<times> pyval) list" where
  "module_globals =
     [(''partial'', PObject), (''Tuple'', PObject), (''Optional'', PObject),
      (''torch'', PObject), (''nn'', PObject), (''F'', PObject),
      (''get_obj_from_str'', PObject), (''initialize_from_config'', PObject),
      (''BaseQuantizer'', PObject), (''VectorQuantizer'', PObject),
      (''GumbelQuantizer'', PObject)]"

definition lookup_name :: "(string \<times> pyval) list \<Rightarrow> string \<Rightarrow> error + pyval" where
  "lookup_name locals name =
     (case map_of (locals @ module_globals) name of
        None \<Rightarrow> Inl (NameError name)
      | Some v \<Rightarrow> Inr v)"

record GumbelQuantizer =
  g_straight_through :: pyval
  g_use_norm :: bool
  g_embed_dim :: nat
  g_n_embed :: nat
  g_temperature :: real
  g_kl_weight :: real
  g_use_residual :: bool
  g_num_quantizers :: "int option"
  g_training :: bool
  g_weight :: "real tensor"

text \<open>
  The constructor. \<open>kwargs\<close> are the extra keyword arguments, which Python collects in the
  dictionary \<^verbatim>\<open>kwargs\<close> (one local name); \<open>w0\<close> stands for the values drawn by
  \<^verbatim>\<open>uniform_\<close>. The base constructor stores \<^verbatim>\<open>straight_through = False\<close>; line 101
  then reads the name \<^verbatim>\<open>straight_through\<close>. \<^verbatim>\<open>1.0 / self.n_embed\<close> on line 111 divides
  by zero when \<open>n_embed = 0\<close>. \<^verbatim>\<open>self.proj\<close> is never read and is left out of the
  record.
\<close>

definition GumbelQuantizer_init ::
  "nat \<Rightarrow> nat \<Rightarrow> real \<Rightarrow> real \<Rightarrow> bool \<Rightarrow> bool \<Rightarrow> int option \<Rightarrow> (string \<times> pyval) list
     \<Rightarrow> (nat \<Rightarrow> real) \<Rightarrow> error + GumbelQuantizer" where
  "GumbelQuantizer_init embed_dim' n_embed' temp_init' kl_weight' use_norm' use_residual'
       num_quantizers' kwargs w0 =
     (let locals =
        [(''self'', PObject), (''embed_dim'', PInt (int embed_dim')),
         (''n_embed'', PInt (int n_embed')), (''temp_init'', PFloat temp_init'),
         (''kl_weight'', PFloat kl_weight'), (''use_norm'', PBool use_norm'),
         (''use_residual'', PBool use_residual'),
         (''num_quantizers'', (case num_quantizers' of None \<Rightarrow> PNone | Some k \<Rightarrow> PInt k)),
         (''kwargs'', PObject)]
      in bind_err (lookup_name locals ''straight_through'') (\<lambda>st.
           if n_embed' = 0 then Inl ZeroDivisionError
           else Inr \<lparr> g_straight_through = st, g_use_norm = use_norm',
                     g_embed_dim = embed_dim', g_n_embed = n_embed',
                     g_temperature = temp_init', g_kl_weight = kl_weight',
                     g_use_residual = use_residual', g_num_quantizers = num_quantizers',
                     g_training = True,
                     g_weight = Tensor [n_embed', embed_dim'] (map w0 [0..<n_embed' * embed_dim']) \<rparr>))"

section \<open>\<^verbatim>\<open>GumbelQuantizer.quantize\<close>\<close>

text \<open>\<^verbatim>\<open>F.softmax(x, dim=2)\<close> along the last dimension.\<close>

definition softmax_vec :: "real list \<Rightarrow> real list" where
  "softmax_vec v = map (\<lambda>x. exp x / sum_list (map exp v)) v"

definition softmax_last :: "real tensor \<Rightarrow> real tensor" where
  "softmax_last x = Tensor (shape x) (concat (map softmax_vec (vectors x)))"

text \<open>The logits of lines 121 to 123, entry \<open>(k, n)\<close>:
  \<open>- sum(z\<^sub>k ** 2) - sum(e\<^sub>n ** 2) + 2 * (z\<^sub>k \<cdot> e\<^sub>n)\<close>.\<close>

definition logit_entry :: "real list \<Rightarrow> real list \<Rightarrow> real" where
  "logit_entry zr e = - sq_sum zr - sq_sum e + 2 * dot zr e"

definition logits_matrix :: "real tensor \<Rightarrow> real tensor \<Rightarrow> error + real tensor" where
  "logits_matrix zs es =
     (if inner_dim (shape zs) \<noteq> inner_dim (shape es) then Inl RuntimeError
      else Inr (Tensor [length (vectors zs), length (vectors es)]
             (concat (map (\<lambda>zr. map (logit_entry zr) (vectors es)) (vectors zs)))))"

text \<open>\<^verbatim>\<open>x.view(*shp, -1)\<close>: the last dimension is inferred, which needs the entries
  of \<open>x\<close> to be a multiple of a nonzero product of \<open>shp\<close>.\<close>

definition view_infer_last :: "nat list \<Rightarrow> 'a tensor \<Rightarrow> error + 'a tensor" where
  "view_infer_last shp x =
     (if prod_list shp = 0 \<or> length (data x) mod prod_list shp \<noteq> 0 then Inl ShapeError
      else Inr (Tensor (shp @ [length (data x) div prod_list shp]) (data x)))"

text \<open>\<^verbatim>\<open>torch.einsum('b t n, n d -> b t d', s, e)\<close>: every vector \<open>w\<close> of \<open>s\<close> along
  its last dimension becomes the combination \<open>\<Sum>\<^sub>n w\<^sub>n e\<^sub>n\<close> of the rows of \<open>e\<close>; \<open>s\<close> must
  be 3-D and \<open>e\<close> 2-D. When the last dimension of \<open>s\<close> and the number of rows of \<open>e\<close>
  differ and one of them is 1, einsum broadcasts that one; otherwise it raises.\<close>

definition mix_rows :: "real list \<Rightarrow> real list list \<Rightarrow> nat \<Rightarrow> real list" where
  "mix_rows w es D = map (\<lambda>c. sum_list (map2 (\<lambda>a e. a * e ! c) w es)) [0..<D]"

definition einsum_btn_nd :: "real tensor \<Rightarrow> real tensor \<Rightarrow> error + real tensor" where
  "einsum_btn_nd s e =
     (if length (shape s) \<noteq> 3 \<or> length (shape e) \<noteq> 2 then Inl RuntimeError
      else if inner_dim (shape s) = hd (shape e)
      then Inr (Tensor (butlast (shape s) @ [inner_dim (shape e)])
             (concat (map (\<lambda>w. mix_rows w (vectors e) (inner_dim (shape e))) (vectors s))))
      else if inner_dim (shape s) = 1
      then Inr (Tensor (butlast (shape s) @ [inner_dim (shape e)])
             (concat (map (\<lambda>w. mix_rows (replicate (hd (shape e)) (hd w)) (vectors e)
                                 (inner_dim (shape e))) (vectors s))))
      else if hd (shape e) = 1
      then Inr (Tensor (butlast (shape s) @ [inner_dim (shape e)])
             (concat (map (\<lambda>w. mix_rows w (replicate (inner_dim (shape s)) (hd (vectors e)))
                                 (inner_dim (shape e))) (vectors s))))
      else Inl RuntimeError)"

text \<open>One summand of the KL term of line 131:
  \<^verbatim>\<open>torch.sum(qy * torch.log(qy * self.n_embed + 1e-10), dim=2)\<close>.\<close>

definition kl_term :: "nat \<Rightarrow> real list \<Rightarrow> real" where
  "kl_term n q = sum_list (map (\<lambda>p. p * ln (p * real n + 1 / 10 ^ 10)) q)"

text \<open>
  \<^verbatim>\<open>GumbelQuantizer.quantize\<close>, lines 113 to 136. \<^verbatim>\<open>F.gumbel_softmax\<close> draws random
  noise: it is the parameter \<open>gumbel_softmax\<close>, of which nothing is assumed. With
  \<^verbatim>\<open>dim=2\<close> it needs a 3-D argument.
\<close>

definition gumbel_quantize ::
  "(real \<Rightarrow> bool \<Rightarrow> real tensor \<Rightarrow> real tensor) \<Rightarrow> GumbelQuantizer \<Rightarrow> real tensor \<Rightarrow> real option
     \<Rightarrow> error + (real tensor \<times> real option \<times> nat tensor)" where
  "gumbel_quantize gumbel_softmax self z temp =
     (let hard = \<not> g_training self;
          temp' = (case temp of None \<Rightarrow> g_temperature self | Some t \<Rightarrow> t)
      in
      bind_err (view_rows (g_embed_dim self) z) (\<lambda>z_reshaped.
      let z_reshaped_norm = norm_fn (g_use_norm self) z_reshaped;
          embedding_norm = norm_fn (g_use_norm self) (g_weight self)
      in
      bind_err (logits_matrix z_reshaped_norm embedding_norm) (\<lambda>logits2.
      bind_err (view_infer_last (take 2 (shape z)) logits2) (\<lambda>logits.
      if length (shape logits) \<noteq> 3 then Inl IndexError
      else
        let soft_one_hot = gumbel_softmax temp' hard logits in
        bind_err (einsum_btn_nd soft_one_hot embedding_norm) (\<lambda>z_qnorm.
        let qy = softmax_last logits;
            loss = lift2 (*) (Some (g_kl_weight self))
                     (mean_list (map (kl_term (g_n_embed self)) (vectors qy)))
        in
        bind_err (argmax_last soft_one_hot) (\<lambda>encoding_indices.
          Inr (z_qnorm, loss, encoding_indices)))))))"

text \<open>The shape of the embedding table that the constructor asks for.\<close>

definition wf_gumbel :: "GumbelQuantizer \<Rightarrow> bool" where
  "wf_gumbel self \<longleftrightarrow>
     0 < g_n_embed self \<and> shape (g_weight self) = [g_n_embed self, g_embed_dim self] \<and>
     wf_tensor (g_weight self)"

section \<open>\<^verbatim>\<open>forward\<close> with tensors in a store\<close>

text \<open>
  \<^verbatim>\<open>forward\<close> uses the in-place operations \<^verbatim>\<open>sub_\<close> and \<^verbatim>\<open>add_\<close>, and
  \<^verbatim>\<open>detach\<close> and \<^verbatim>\<open>view\<close> return tensors that share the storage of their argument.
  To say which tensors a call changes, storages live in a store: a tensor variable is a
  reference (the address of its storage and its shape), \<open>fresh\<close> is the next address not
  yet allocated.
\<close>

record store =
  cells :: "nat \<rightharpoonup> real list"
  fresh :: nat

record tref =
  addr :: nat
  rshape :: "nat list"

definition deref :: "store \<Rightarrow> tref \<Rightarrow> real tensor" where
  "deref h r = Tensor (rshape r) (case cells h (addr r) of None \<Rightarrow> [] | Some d \<Rightarrow> d)"

text \<open>A new tensor: new storage.\<close>

definition alloc :: "real tensor \<Rightarrow> store \<Rightarrow> tref \<times> store" where
  "alloc x h =
     (\<lparr> addr = fresh h, rshape = shape x \<rparr>,
      h\<lparr> cells := (cells h)(fresh h \<mapsto> data x), fresh := Suc (fresh h) \<rparr>)"

text \<open>An in-place operation: the storage of the target is overwritten.\<close>

definition overwrite :: "tref \<Rightarrow> real tensor \<Rightarrow> store \<Rightarrow> store" where
  "overwrite r x h = h\<lparr> cells := (cells h)(addr r \<mapsto> data x) \<rparr>"

text \<open>\<^verbatim>\<open>x.detach()\<close> shares the storage of \<open>x\<close>; \<^verbatim>\<open>x.clone()\<close> and
  \<^verbatim>\<open>torch.zeros_like(x)\<close> allocate; \<^verbatim>\<open>x.sub_(y)\<close> and \<^verbatim>\<open>x.add_(y)\<close> write to \<open>x\<close>.\<close>

definition detach :: "tref \<Rightarrow> tref" where
  "detach r = r"

definition clone :: "tref \<Rightarrow> store \<Rightarrow> tref \<times> store" where
  "clone r h = alloc (deref h r) h"

definition zeros_like_h :: "tref \<Rightarrow> store \<Rightarrow> tref \<times> store" where
  "zeros_like_h r h = alloc (zeros_like (deref h r)) h"

definition sub_inplace :: "tref \<Rightarrow> tref \<Rightarrow> store \<Rightarrow> store" where
  "sub_inplace r q h = overwrite r (tsub (deref h r) (deref h q)) h"

definition add_inplace :: "tref \<Rightarrow> tref \<Rightarrow> store \<Rightarrow> store" where
  "add_inplace r q h = overwrite r (tadd (deref h r) (deref h q)) h"

text \<open>
  \<^verbatim>\<open>quantize\<close> on references. It has no in-place operation: it reads the input and
  the weight matrix (whose reference is \<open>wref\<close>) and returns \<open>z_qnorm\<close> in storage of its
  own, that of the tensor which \<^verbatim>\<open>self.embedding(encoding_indices)\<close> creates or that of
  its normalization. The index tensor and the loss are never written to and stay values.
\<close>

definition quantize_h ::
  "VectorQuantizer \<Rightarrow> tref \<Rightarrow> tref \<Rightarrow> store
     \<Rightarrow> (error + (tref \<times> real option \<times> nat tensor)) \<times> store" where
  "quantize_h self wref z h =
     (case quantize (self\<lparr>weight := deref h wref\<rparr>) (deref h z) of
        Inl e \<Rightarrow> (Inl e, h)
      | Inr (z_qnorm, loss, encoding_indices) \<Rightarrow>
          (let (r, h') = alloc z_qnorm h in (Inr (r, loss, encoding_indices), h')))"

text \<open>The loop of lines 39 to 45: \<^verbatim>\<open>quantize(residual.clone())\<close>,
  \<^verbatim>\<open>residual.sub_(z_qi)\<close>, \<^verbatim>\<open>z_q.add_(z_qi)\<close>, and the two appends.\<close>

fun residual_loop_h ::
  "VectorQuantizer \<Rightarrow> tref \<Rightarrow> nat \<Rightarrow> tref \<Rightarrow> tref \<Rightarrow> real option list \<Rightarrow> nat tensor list \<Rightarrow> store
     \<Rightarrow> (error + (real option list \<times> nat tensor list)) \<times> store" where
  "residual_loop_h self wref 0 z_q residual losses encoding_indices h =
     (Inr (losses, encoding_indices), h)"
| "residual_loop_h self wref (Suc n) z_q residual losses encoding_indices h =
     (let (c, h1) = clone residual h in
      case quantize_h self wref c h1 of
        (Inl e, h2) \<Rightarrow> (Inl e, h2)
      | (Inr (z_qi, loss, indices), h2) \<Rightarrow>
          (let h3 = sub_inplace residual z_qi h2;
               h4 = add_inplace z_q z_qi h3
           in residual_loop_h self wref n z_q residual
                (losses @ [loss]) (encoding_indices @ [indices]) h4))"

text \<open>\<^verbatim>\<open>forward\<close>, lines 29 to 54. The straight-through line builds
  \<^verbatim>\<open>z + (z_q - z).detach()\<close> as a new tensor and rebinds the name \<open>z_q\<close> to it.\<close>

definition forward_h ::
  "VectorQuantizer \<Rightarrow> tref \<Rightarrow> tref \<Rightarrow> store
     \<Rightarrow> (error + (tref \<times> real option \<times> nat tensor)) \<times> store" where
  "forward_h self wref z h =
     (case
        (if \<not> use_residual self then quantize_h self wref z h
         else
           (case num_quantizers self of
              None \<Rightarrow> (Inl TypeError, h)
            | Some k \<Rightarrow>
                (let (z_q, h1) = zeros_like_h z h;
                     (residual, h2) = clone (detach z) h1
                 in case residual_loop_h self wref (nat k) z_q residual [] [] h2 of
                      (Inl e, h3) \<Rightarrow> (Inl e, h3)
                    | (Inr (losses, encoding_indices), h3) \<Rightarrow>
                        (bind_err (stack_scalars losses) (\<lambda>losses'.
                         bind_err (stack_last encoding_indices) (\<lambda>encoding_indices'.
                           Inr (z_q, mean_scalars losses', encoding_indices'))), h3))))
      of
        (Inl e, h') \<Rightarrow> (Inl e, h')
      | (Inr (z_q, loss, encoding_indices), h') \<Rightarrow>
          if straight_through self
          then (let (z_q', h'') = alloc (tadd (deref h' z) (tsub (deref h' z_q) (deref h' z))) h'
                in (Inr (z_q', loss, encoding_indices), h''))
          else (Inr (z_q, loss, encoding_indices), h'))"

text \<open>\<open>frame n h h'\<close>: from \<open>h\<close> to \<open>h'\<close> nothing was deallocated and every storage at an
  address below \<open>n\<close> holds what it held.\<close>

definition frame :: "nat \<Rightarrow> store \<Rightarrow> store \<Rightarrow> bool" where
  "frame n h h' \<longleftrightarrow> fresh h \<le> fresh h' \<and> (\<forall>a<n. cells h' a = cells h a)"

section \<open>The stages of residual quantization, as the specification describes them\<close>

text \<open>
  Stage \<open>k\<close> applies \<^verbatim>\<open>quantize\<close> to the residual \<open>r\<^sub>k\<^sub>-\<^sub>1\<close>, with \<open>r\<^sub>0 = z\<close>, and sets
  \<open>r\<^sub>k = r\<^sub>k\<^sub>-\<^sub>1 - q\<^sub>k\<close>. \<open>stages self n z\<close> lists the results \<open>(q\<^sub>k, loss\<^sub>k, indices\<^sub>k)\<close> of
  the first \<open>n\<close> stages.
\<close>

fun stages ::
  "VectorQuantizer \<Rightarrow> nat \<Rightarrow> real tensor
     \<Rightarrow> error + (real tensor \<times> real option \<times> nat tensor) list" where
  "stages self 0 r = Inr []"
| "stages self (Suc n) r =
     bind_err (quantize self r) (\<lambda>(q, l, i).
       bind_err (stages self n (tsub r q)) (\<lambda>rest. Inr ((q, l, i) # rest)))"

text \<open>The arithmetic mean of the stage losses; NaN when one of them is.\<close>

definition mean_of_losses :: "real option list \<Rightarrow> real option" where
  "mean_of_losses ls =
     (if list_all (\<lambda>l. l \<noteq> None) ls \<and> ls \<noteq> []
      then Some (sum_list (map the ls) / real (length ls)) else None)"

text \<open>A stage result on an input of shape \<open>(b, t, D)\<close>: a quantized tensor of that shape and
  an index tensor of shape \<open>(b, t)\<close>.\<close>

definition stage_ok :: "nat \<Rightarrow> nat \<Rightarrow> nat \<Rightarrow> real tensor \<times> real option \<times> nat tensor \<Rightarrow> bool" where
  "stage_ok b t D s \<longleftrightarrow>
     shape (fst s) = [b, t, D] \<and> wf_tensor (fst s) \<and>
     shape (snd (snd s)) = [b, t] \<and> wf_tensor (snd (snd s))"

section \<open>Notions used to state the properties\<close>

text \<open>
  Reading a tensor at a position: \<open>x[i, j]\<close> of a 2-D tensor is an entry, of a 3-D tensor
  the vector along the last dimension.
\<close>

definition at2 :: "'a tensor \<Rightarrow> nat \<Rightarrow> nat \<Rightarrow> 'a" where
  "at2 x i j = data x ! (i * (shape x ! 1) + j)"

definition at3 :: "'a tensor \<Rightarrow> nat \<Rightarrow> nat \<Rightarrow> 'a list" where
  "at3 x i j = take (shape x ! 2) (drop ((i * (shape x ! 1) + j) * (shape x ! 2)) (data x))"

text \<open>
  The codebook rows and the input rows of \<^verbatim>\<open>quantize\<close> (the rows of
  \<^verbatim>\<open>z.view(-1, embed_dim)\<close>), each after \<^verbatim>\<open>self.norm\<close>, and the index that \<^verbatim>\<open>argmin\<close> picks
  for one input row.
\<close>

definition code_rows :: "VectorQuantizer \<Rightarrow> real list list" where
  "code_rows self = map (norm_vec (use_norm self)) (vectors (weight self))"

definition input_rows :: "VectorQuantizer \<Rightarrow> real tensor \<Rightarrow> real list list" where
  "input_rows self z =
     map (norm_vec (use_norm self))
       (vectors (Tensor [length (data z) div embed_dim self, embed_dim self] (data z)))"

definition nearest :: "VectorQuantizer \<Rightarrow> real list \<Rightarrow> nat" where
  "nearest self zr = argmin_vec (map (dist_entry zr) (code_rows self))"

text \<open>A quantizer with two codebook rows in dimension two, without normalization, and
  an input of shape \<open>(1, 2, 2)\<close>, on which the theorems are instantiated.\<close>

definition vq_example :: VectorQuantizer where
  "vq_example = \<lparr> straight_through = True, use_norm = False, n_embed = 2, embed_dim = 2,
      beta = 1 / 4, use_residual = False, num_quantizers = None,
      weight = Tensor [2, 2] [0, 0, 1, 1] \<rparr>"

definition z_example :: "real tensor" where
  "z_example = Tensor [1, 2, 2] [9 / 10, 8 / 10, 1 / 10, - 2 / 10]"

text \<open>A GumbelQuantizer object with the fields that the constructor sets, in evaluation
  mode, and a stand-in for \<^verbatim>\<open>F.gumbel_softmax\<close> that returns the logits.\<close>

definition gq_example :: GumbelQuantizer where
  "gq_example = \<lparr> g_straight_through = PBool False, g_use_norm = False, g_embed_dim = 2,
      g_n_embed = 2, g_temperature = 1, g_kl_weight = 5 / 10 ^ 4, g_use_residual = False,
      g_num_quantizers = None, g_training = False,
      g_weight = Tensor [2, 2] [0, 0, 1, 1] \<rparr>"

definition gs_example :: "real \<Rightarrow> bool \<Rightarrow> real tensor \<Rightarrow> real tensor" where
  "gs_example tau hard logits = logits"

text \<open>The same quantizer in residual mode with two stages.\<close>

definition vq_residual_example :: VectorQuantizer where
  "vq_residual_example = vq_example\<lparr>use_residual := True, num_quantizers := Some 2\<rparr>"



text \<open>The quantizer that \<^verbatim>\<open>VectorQuantizer(2, 2, use_residual=True)\<close> builds when
  \<^verbatim>\<open>uniform_\<close> draws zeros: \<^verbatim>\<open>num_quantizers\<close> keeps its default \<^verbatim>\<open>None\<close>.\<close>

definition w0_example :: "nat \<Rightarrow> real" where
  "w0_example k = 0"

definition vq_init_example :: VectorQuantizer where
  "vq_init_example = \<lparr> straight_through = True, use_norm = True, n_embed = 2, embed_dim = 2,
      beta = 1 / 4, use_residual = True, num_quantizers = None,
      weight = Tensor [2, 2] [0, 0, 0, 0] \<rparr>"

text \<open>A store that holds the weight matrix of \<open>vq_example\<close> at address 0 and \<open>z_example\<close>
  at address 1.\<close>

definition wref_example :: tref where
  "wref_example = \<lparr> addr = 0, rshape = [2, 2] \<rparr>"

definition zref_example :: tref where
  "zref_example = \<lparr> addr = 1, rshape = [1, 2, 2] \<rparr>"

definition store_example :: store where
  "store_example =
     \<lparr> cells = [0 \<mapsto> [0, 0, 1, 1], 1 \<mapsto> [9 / 10, 8 / 10, 1 / 10, - 2 / 10]], fresh = 2 \<rparr>"

text \<open>A GumbelQuantizer object with a single codebook row in dimension two, an input of
  shape \<open>(1, 1, 4)\<close>, and an outcome of \<^verbatim>\<open>F.gumbel_softmax\<close> in evaluation mode: the
  one-hot vector of the second of two logits.\<close>

definition gq1_example :: GumbelQuantizer where
  "gq1_example = \<lparr> g_straight_through = PBool False, g_use_norm = False, g_embed_dim = 2,
      g_n_embed = 1, g_temperature = 1, g_kl_weight = 5 / 10 ^ 4, g_use_residual = False,
      g_num_quantizers = None, g_training = False,
      g_weight = Tensor [1, 2] [0, 0] \<rparr>"

definition z4_example :: "real tensor" where
  "z4_example = Tensor [1, 1, 4] [1, 1, 0, 0]"

definition gs1_example :: "real \<Rightarrow> bool \<Rightarrow> real tensor \<Rightarrow> real tensor" where
  "gs1_example tau hard logits = Tensor (shape logits) [0, 1]"

section \<open>The quantizer over floating-point arithmetic\<close>

text \<open>
  What the module computes depends on how PyTorch rounds. For the properties that hinge
  on it, \<^verbatim>\<open>quantize\<close> and \<^verbatim>\<open>forward\<close> are given a second time with the arithmetic as a
  parameter: the entries have any type \<open>'a\<close>, and every numeric primitive the code calls
  is a field of the record below, of which nothing is assumed. Float32 with its
  rounding, infinities and NaN is one instance, exact real arithmetic another.
\<close>

record 'a arith =
  plus_op :: "'a \<Rightarrow> 'a \<Rightarrow> 'a"
  minus_op :: "'a \<Rightarrow> 'a \<Rightarrow> 'a"
  times_op :: "'a \<Rightarrow> 'a \<Rightarrow> 'a"
  divide_op :: "'a \<Rightarrow> 'a \<Rightarrow> 'a"
  square_op :: "'a \<Rightarrow> 'a"
  sum_op :: "'a list \<Rightarrow> 'a"
  dot_op :: "'a list \<Rightarrow> 'a list \<Rightarrow> 'a"
  mean_op :: "'a list \<Rightarrow> 'a"
  norm_op :: "'a list \<Rightarrow> 'a"
  clamp_min_op :: "'a \<Rightarrow> 'a \<Rightarrow> 'a"
  less_op :: "'a \<Rightarrow> 'a \<Rightarrow> bool"
  zero_c :: 'a
  two_c :: 'a
  eps_c :: 'a

text \<open>
  \<open>plus_op\<close>, \<open>minus_op\<close>, \<open>times_op\<close>, \<open>divide_op\<close> are the entrywise \<^verbatim>\<open>+\<close>, \<^verbatim>\<open>-\<close>,
  \<^verbatim>\<open>*\<close>, \<^verbatim>\<open>/\<close>; \<open>square_op\<close> is \<^verbatim>\<open>** 2\<close>; \<open>sum_op\<close> is \<^verbatim>\<open>torch.sum\<close> along a dimension,
  \<open>dot_op\<close> the contraction of \<^verbatim>\<open>torch.einsum('b d, n d -> b n')\<close>, \<open>mean_op\<close> is
  \<^verbatim>\<open>torch.mean\<close> (of an empty tensor too), \<open>norm_op\<close> the 2-norm and \<open>clamp_min_op\<close> the
  lower clamp inside \<^verbatim>\<open>F.normalize\<close>, \<open>less_op x y\<close> says that \<^verbatim>\<open>torch.argmin\<close> prefers
  \<open>x\<close> to \<open>y\<close>; \<open>zero_c\<close>, \<open>two_c\<close> and \<open>eps_c\<close> are the constants \<open>0\<close>, \<open>2\<close> and \<open>1e-12\<close>.
\<close>

record 'a VectorQuantizer_fp =
  fp_straight_through :: bool
  fp_use_norm :: bool
  fp_n_embed :: nat
  fp_embed_dim :: nat
  fp_beta :: 'a
  fp_use_residual :: bool
  fp_num_quantizers :: "int option"
  fp_weight :: "'a tensor"

definition wf_quantizer_fp :: "'a VectorQuantizer_fp \<Rightarrow> bool" where
  "wf_quantizer_fp self \<longleftrightarrow>
     0 < fp_n_embed self \<and> shape (fp_weight self) = [fp_n_embed self, fp_embed_dim self] \<and>
     wf_tensor (fp_weight self)"

definition F_normalize_vec_fp :: "'a arith \<Rightarrow> 'a list \<Rightarrow> 'a list" where
  "F_normalize_vec_fp A v =
     map (\<lambda>x. divide_op A x (clamp_min_op A (norm_op A v) (eps_c A))) v"

definition F_normalize_fp :: "'a arith \<Rightarrow> 'a tensor \<Rightarrow> 'a tensor" where
  "F_normalize_fp A t = Tensor (shape t) (concat (map (F_normalize_vec_fp A) (vectors t)))"

definition norm_fn_fp :: "'a arith \<Rightarrow> bool \<Rightarrow> 'a tensor \<Rightarrow> 'a tensor" where
  "norm_fn_fp A u x = (if u then F_normalize_fp A x else x)"

definition norm_vec_fp :: "'a arith \<Rightarrow> bool \<Rightarrow> 'a list \<Rightarrow> 'a list" where
  "norm_vec_fp A u v = (if u then F_normalize_vec_fp A v else v)"

definition dist_entry_fp :: "'a arith \<Rightarrow> 'a list \<Rightarrow> 'a list \<Rightarrow> 'a" where
  "dist_entry_fp A zr e =
     minus_op A
       (plus_op A (sum_op A (map (square_op A) zr)) (sum_op A (map (square_op A) e)))
       (times_op A (two_c A) (dot_op A zr e))"

definition distances_fp :: "'a arith \<Rightarrow> 'a tensor \<Rightarrow> 'a tensor \<Rightarrow> error + 'a tensor" where
  "distances_fp A zs es =
     (if inner_dim (shape zs) \<noteq> inner_dim (shape es) then Inl RuntimeError
      else Inr (Tensor [length (vectors zs), length (vectors es)]
             (concat (map (\<lambda>zr. map (dist_entry_fp A zr) (vectors es)) (vectors zs)))))"

fun argmin_from_fp :: "'a arith \<Rightarrow> 'a list \<Rightarrow> nat \<Rightarrow> nat \<Rightarrow> 'a \<Rightarrow> nat" where
  "argmin_from_fp A [] i best bv = best"
| "argmin_from_fp A (x # xs) i best bv =
     (if less_op A x bv then argmin_from_fp A xs (Suc i) i x
      else argmin_from_fp A xs (Suc i) best bv)"

definition argmin_vec_fp :: "'a arith \<Rightarrow> 'a list \<Rightarrow> nat" where
  "argmin_vec_fp A xs = (case xs of [] \<Rightarrow> 0 | x # rest \<Rightarrow> argmin_from_fp A rest 1 0 x)"

definition argmin_last_fp :: "'a arith \<Rightarrow> 'a tensor \<Rightarrow> error + nat tensor" where
  "argmin_last_fp A d =
     (if inner_dim (shape d) = 0 then Inl IndexError
      else Inr (Tensor (butlast (shape d)) (map (argmin_vec_fp A) (vectors d))))"

definition embedding_lookup_fp :: "'a tensor \<Rightarrow> nat tensor \<Rightarrow> error + 'a tensor" where
  "embedding_lookup_fp w idx =
     (if \<forall>i \<in> set (data idx). i < hd (shape w)
      then Inr (Tensor (shape idx @ [inner_dim (shape w)]) (concat (map (row w) (data idx))))
      else Inl IndexError)"

definition tsub_fp :: "'a arith \<Rightarrow> 'a tensor \<Rightarrow> 'a tensor \<Rightarrow> 'a tensor" where
  "tsub_fp A a b = Tensor (shape a) (map2 (minus_op A) (data a) (data b))"

definition tadd_fp :: "'a arith \<Rightarrow> 'a tensor \<Rightarrow> 'a tensor \<Rightarrow> 'a tensor" where
  "tadd_fp A a b = Tensor (shape a) (map2 (plus_op A) (data a) (data b))"

definition tsquare_fp :: "'a arith \<Rightarrow> 'a tensor \<Rightarrow> 'a tensor" where
  "tsquare_fp A a = Tensor (shape a) (map (square_op A) (data a))"

definition zeros_like_fp :: "'a arith \<Rightarrow> 'a tensor \<Rightarrow> 'a tensor" where
  "zeros_like_fp A a = Tensor (shape a) (replicate (length (data a)) (zero_c A))"

definition stack_scalars_fp :: "'a list \<Rightarrow> error + 'a list" where
  "stack_scalars_fp ls = (if ls = [] then Inl RuntimeError else Inr ls)"

text \<open>\<^verbatim>\<open>VectorQuantizer.quantize\<close>, lines 72 to 90.\<close>

definition quantize_fp ::
  "'a arith \<Rightarrow> 'a VectorQuantizer_fp \<Rightarrow> 'a tensor \<Rightarrow> error + ('a tensor \<times> 'a \<times> nat tensor)" where
  "quantize_fp A self z =
     bind_err (view_rows (fp_embed_dim self) z) (\<lambda>z_reshaped.
     let z_reshaped_norm = norm_fn_fp A (fp_use_norm self) z_reshaped;
         embedding_norm = norm_fn_fp A (fp_use_norm self) (fp_weight self)
     in
     bind_err (distances_fp A z_reshaped_norm embedding_norm) (\<lambda>d.
     bind_err (argmin_last_fp A d) (\<lambda>am.
     bind_err (view_args (take 2 (shape z)) (Tensor (shape am @ [1]) (data am))) (\<lambda>encoding_indices.
     bind_err (embedding_lookup_fp (fp_weight self) encoding_indices) (\<lambda>e.
     bind_err (view (shape z) e) (\<lambda>z_q.
     let z_qnorm = norm_fn_fp A (fp_use_norm self) z_q;
         z_norm = norm_fn_fp A (fp_use_norm self) z;
         loss = plus_op A (mean_op A (data (tsquare_fp A (tsub_fp A z_qnorm z_norm))))
                  (times_op A (fp_beta self)
                     (mean_op A (data (tsquare_fp A (tsub_fp A z_qnorm z_norm)))))
     in Inr (z_qnorm, loss, encoding_indices)))))))"

text \<open>\<^verbatim>\<open>BaseQuantizer.forward\<close>, lines 29 to 54: the loop, lines 30 to 48, and the
  whole with the straight-through lines 50 to 54.\<close>

fun residual_loop_fp ::
  "'a arith \<Rightarrow> 'a VectorQuantizer_fp \<Rightarrow> nat
     \<Rightarrow> 'a tensor \<times> 'a tensor \<times> 'a list \<times> nat tensor list
     \<Rightarrow> error + ('a tensor \<times> 'a tensor \<times> 'a list \<times> nat tensor list)" where
  "residual_loop_fp A self 0 st = Inr st"
| "residual_loop_fp A self (Suc n) (z_q, residual, losses, encoding_indices) =
     bind_err (quantize_fp A self residual) (\<lambda>(z_qi, loss, indices).
       residual_loop_fp A self n
         (tadd_fp A z_q z_qi, tsub_fp A residual z_qi, losses @ [loss],
          encoding_indices @ [indices]))"

definition forward_body_fp ::
  "'a arith \<Rightarrow> 'a VectorQuantizer_fp \<Rightarrow> 'a tensor \<Rightarrow> error + ('a tensor \<times> 'a \<times> nat tensor)" where
  "forward_body_fp A self z =
     (if \<not> fp_use_residual self then quantize_fp A self z
      else
        (case fp_num_quantizers self of
           None \<Rightarrow> Inl TypeError
         | Some k \<Rightarrow>
             bind_err (residual_loop_fp A self (nat k) (zeros_like_fp A z, z, [], []))
               (\<lambda>(z_q, residual, losses, encoding_indices).
                  bind_err (stack_scalars_fp losses) (\<lambda>losses'.
                  bind_err (stack_last encoding_indices) (\<lambda>encoding_indices'.
                    Inr (z_q, mean_op A losses', encoding_indices'))))))"




text \<open>The \<open>k\<close>-th input row and the \<open>n\<close>-th codebook row after \<^verbatim>\<open>self.norm\<close>, the lists of
  all of them, and the index that \<^verbatim>\<open>argmin\<close> picks for an input row.\<close>

definition input_row_fp :: "'a arith \<Rightarrow> 'a VectorQuantizer_fp \<Rightarrow> 'a tensor \<Rightarrow> nat \<Rightarrow> 'a list" where
  "input_row_fp A self z k =
     norm_vec_fp A (fp_use_norm self)
       (take (fp_embed_dim self) (drop (k * fp_embed_dim self) (data z)))"

definition code_row_fp :: "'a arith \<Rightarrow> 'a VectorQuantizer_fp \<Rightarrow> nat \<Rightarrow> 'a list" where
  "code_row_fp A self n = norm_vec_fp A (fp_use_norm self) (row (fp_weight self) n)"

definition code_rows_fp :: "'a arith \<Rightarrow> 'a VectorQuantizer_fp \<Rightarrow> 'a list list" where
  "code_rows_fp A self = map (norm_vec_fp A (fp_use_norm self)) (vectors (fp_weight self))"

definition input_rows_fp :: "'a arith \<Rightarrow> 'a VectorQuantizer_fp \<Rightarrow> 'a tensor \<Rightarrow> 'a list list" where
  "input_rows_fp A self z =
     map (norm_vec_fp A (fp_use_norm self))
       (vectors (Tensor [length (data z) div fp_embed_dim self, fp_embed_dim self] (data z)))"

definition nearest_fp :: "'a arith \<Rightarrow> 'a VectorQuantizer_fp \<Rightarrow> 'a list \<Rightarrow> nat" where
  "nearest_fp A self zr = argmin_vec_fp A (map (dist_entry_fp A zr) (code_rows_fp A self))"


subsection \<open>Float32\<close>

text \<open>
  The instance used in the examples. A finite float32 value of the normal range is a real
  number with a significand of 24 bits, and every operation returns the exact result
  rounded to the nearest such number, ties to the even significand (\<open>fl32\<close>, with
  \<open>round_even\<close> on the significand). Overflow to infinity, subnormal numbers and NaN are
  not part of this instance: the values of the examples below stay in the normal range,
  and no example divides by zero. \<open>fsum32\<close> adds from left to right; every sum of the
  examples has a single term, so that the order of summation plays no role in them.
\<close>

definition round_even :: "real \<Rightarrow> int" where
  "round_even r =
     (if r - of_int \<lfloor>r\<rfloor> < 1 / 2 then \<lfloor>r\<rfloor>
      else if 1 / 2 < r - of_int \<lfloor>r\<rfloor> then \<lfloor>r\<rfloor> + 1
      else if even \<lfloor>r\<rfloor> then \<lfloor>r\<rfloor> else \<lfloor>r\<rfloor> + 1)"

definition pow2 :: "int \<Rightarrow> real" where
  "pow2 e = (if 0 \<le> e then 2 ^ nat e else 1 / 2 ^ nat (- e))"

definition fl32 :: "real \<Rightarrow> real" where
  "fl32 x =
     (if x = 0 then 0
      else of_int (round_even (x / pow2 (\<lfloor>log 2 \<bar>x\<bar>\<rfloor> - 23))) * pow2 (\<lfloor>log 2 \<bar>x\<bar>\<rfloor> - 23))"

definition fsum32 :: "real list \<Rightarrow> real" where
  "fsum32 xs = foldl (\<lambda>s x. fl32 (s + x)) 0 xs"

definition f32 :: "real arith" where
  "f32 = \<lparr> plus_op = (\<lambda>x y. fl32 (x + y)), minus_op = (\<lambda>x y. fl32 (x - y)),
           times_op = (\<lambda>x y. fl32 (x * y)), divide_op = (\<lambda>x y. fl32 (x / y)),
           square_op = (\<lambda>x. fl32 (x * x)), sum_op = fsum32,
           dot_op = (\<lambda>u v. fsum32 (map2 (\<lambda>x y. fl32 (x * y)) u v)),
           mean_op = (\<lambda>xs. fl32 (fsum32 xs / real (length xs))),
           norm_op = (\<lambda>v. fl32 (sqrt (fsum32 (map (\<lambda>x. fl32 (x * x)) v)))),
           clamp_min_op = max, less_op = (<), zero_c = 0, two_c = 2,
           eps_c = fl32 (1 / 10 ^ 12) \<rparr>"

subsection \<open>Examples in float32\<close>





definition vq15_example :: "real VectorQuantizer_fp" where
  "vq15_example = \<lparr> fp_straight_through = True, fp_use_norm = False, fp_n_embed = 2,
      fp_embed_dim = 1, fp_beta = 1 / 4, fp_use_residual = False, fp_num_quantizers = None,
      fp_weight = Tensor [2, 1] [10001, 19999 / 2] \<rparr>"

definition z15_example :: "real tensor" where
  "z15_example = Tensor [1, 1, 1] [10000]"

section \<open>Auxiliary facts about tensors\<close>

lemma bind_err_simps [simp]:
  "bind_err (Inl e) f = Inl e"
  "bind_err (Inr x) f = f x"
  by (simp_all add: bind_err_def)

lemma length_concat_uniform:
  "\<forall>x \<in> set xss. length x = D \<Longrightarrow> length (concat xss) = length xss * D"
  by (induction xss) auto

lemma take_drop_concat_uniform:
  "\<forall>x \<in> set xss. length x = D \<Longrightarrow> k < length xss \<Longrightarrow>
     take D (drop (k * D) (concat xss)) = xss ! k"
proof (induction xss arbitrary: k)
  case Nil
  then show ?case by simp
next
  case (Cons x xss)
  show ?case
  proof (cases k)
    case 0
    with Cons.prems show ?thesis by simp
  next
    case (Suc m)
    with Cons.prems have "m < length xss" and "length x = D" by auto
    with Cons have "take D (drop (m * D) (concat xss)) = xss ! m" by simp
    with Suc \<open>length x = D\<close> show ?thesis by simp
  qed
qed

lemma vectors_concat:
  assumes "\<forall>x \<in> set xss. length x = D" and "length xss = prod_list s"
  shows "vectors (Tensor (s @ [D]) (concat xss)) = xss"
proof -
  have "map (\<lambda>k. take D (drop (k * D) (concat xss))) [0..<length xss] = map (\<lambda>k. xss ! k) [0..<length xss]"
    using assms(1) by (intro map_cong) (auto simp: take_drop_concat_uniform)
  also have "\<dots> = xss" by (rule map_nth)
  finally show ?thesis using assms(2) by (simp add: vectors_def inner_dim_def)
qed

lemma length_vectors [simp]: "length (vectors t) = prod_list (butlast (shape t))"
  by (simp add: vectors_def)

lemma vectors_nth:
  "k < prod_list (butlast (shape t)) \<Longrightarrow>
     vectors t ! k = take (inner_dim (shape t)) (drop (k * inner_dim (shape t)) (data t))"
  by (simp add: vectors_def)

lemma length_vector_in:
  assumes "wf_tensor t" "shape t \<noteq> []" "v \<in> set (vectors t)"
  shows "length v = inner_dim (shape t)"
proof -
  from assms(2) have sh: "shape t = butlast (shape t) @ [last (shape t)]" by simp
  have "prod_list (shape t) = prod_list (butlast (shape t)) * last (shape t)"
    by (subst sh) simp
  with assms(1) have len: "length (data t) = prod_list (butlast (shape t)) * last (shape t)"
    by (simp add: wf_tensor_def)
  from assms(3) obtain k where k: "k < prod_list (butlast (shape t))"
    and v: "v = take (last (shape t)) (drop (k * last (shape t)) (data t))"
    using assms(2) by (auto simp: vectors_def inner_dim_def)
  from k have "Suc k \<le> prod_list (butlast (shape t))" by simp
  then have "Suc k * last (shape t) \<le> prod_list (butlast (shape t)) * last (shape t)"
    by (rule mult_le_mono1)
  with len have "k * last (shape t) + last (shape t) \<le> length (data t)" by simp
  with v show ?thesis using assms(2) by (simp add: inner_dim_def)
qed

lemma length_F_normalize_vec [simp]: "length (F_normalize_vec v) = length v"
  by (simp add: F_normalize_vec_def)

lemma norm_vec_True [simp]: "norm_vec True = F_normalize_vec"
  by (rule ext) (simp add: norm_vec_def)

lemma norm_vec_False [simp]: "norm_vec False = (\<lambda>v. v)"
  by (rule ext) (simp add: norm_vec_def)

lemma length_norm_vec [simp]: "length (norm_vec u v) = length v"
  by (simp add: norm_vec_def)

lemma shape_norm_fn [simp]: "shape (norm_fn u t) = shape t"
  by (simp add: norm_fn_def F_normalize_def)

lemma vectors_norm_fn:
  assumes "wf_tensor t" "shape t \<noteq> []"
  shows "vectors (norm_fn u t) = map (norm_vec u) (vectors t)"
proof (cases u)
  case False
  then show ?thesis by (simp add: norm_fn_def norm_vec_def)
next
  case True
  from assms(2) have sh: "shape t = butlast (shape t) @ [inner_dim (shape t)]"
    by (simp add: inner_dim_def)
  have "vectors (Tensor (butlast (shape t) @ [inner_dim (shape t)])
          (concat (map F_normalize_vec (vectors t)))) = map F_normalize_vec (vectors t)"
    using assms by (intro vectors_concat) (auto simp: length_vector_in)
  with sh True show ?thesis by (simp add: norm_fn_def norm_vec_def F_normalize_def)
qed

lemma norm_fn_concat:
  assumes "\<forall>x \<in> set xss. length x = D" and "length xss = prod_list s"
  shows "norm_fn u (Tensor (s @ [D]) (concat xss)) = Tensor (s @ [D]) (concat (map (norm_vec u) xss))"
proof (cases u)
  case True
  then show ?thesis using vectors_concat[OF assms]
    by (simp add: norm_fn_def F_normalize_def norm_vec_def)
next
  case False
  then show ?thesis by (simp add: norm_fn_def norm_vec_def)
qed

lemma argmin_from_spec:
  assumes "best < length pre" "pre ! best = bv" "\<forall>j<length pre. bv \<le> pre ! j"
  shows "argmin_from xs (length pre) best bv < length (pre @ xs) \<and>
         (\<forall>j<length (pre @ xs). (pre @ xs) ! argmin_from xs (length pre) best bv \<le> (pre @ xs) ! j)"
  using assms
proof (induction xs arbitrary: pre best bv)
  case Nil
  then show ?case by simp
next
  case (Cons x xs)
  show ?case
  proof (cases "x < bv")
    case True
    have "length pre < length (pre @ [x])" by simp
    moreover have "(pre @ [x]) ! length pre = x" by simp
    moreover have "\<forall>j<length (pre @ [x]). x \<le> (pre @ [x]) ! j"
    proof (intro allI impI)
      fix j assume "j < length (pre @ [x])"
      then consider "j < length pre" | "j = length pre" by force
      then show "x \<le> (pre @ [x]) ! j"
      proof cases
        case 1
        with Cons.prems have "bv \<le> pre ! j" by simp
        with True 1 show ?thesis by (simp add: nth_append)
      next
        case 2
        then show ?thesis by simp
      qed
    qed
    ultimately have "argmin_from xs (length (pre @ [x])) (length pre) x < length ((pre @ [x]) @ xs) \<and>
         (\<forall>j<length ((pre @ [x]) @ xs). ((pre @ [x]) @ xs) ! argmin_from xs (length (pre @ [x])) (length pre) x \<le> ((pre @ [x]) @ xs) ! j)"
      by (rule Cons.IH)
    with True show ?thesis by simp
  next
    case False
    have "best < length (pre @ [x])" using Cons.prems by simp
    moreover have "(pre @ [x]) ! best = bv" using Cons.prems by (simp add: nth_append)
    moreover have "\<forall>j<length (pre @ [x]). bv \<le> (pre @ [x]) ! j"
      using Cons.prems False by (auto simp: nth_append less_Suc_eq)
    ultimately have "argmin_from xs (length (pre @ [x])) best bv < length ((pre @ [x]) @ xs) \<and>
         (\<forall>j<length ((pre @ [x]) @ xs). ((pre @ [x]) @ xs) ! argmin_from xs (length (pre @ [x])) best bv \<le> ((pre @ [x]) @ xs) ! j)"
      by (rule Cons.IH)
    with False show ?thesis by simp
  qed
qed

lemma argmin_vec_spec:
  assumes "xs \<noteq> []"
  shows "argmin_vec xs < length xs \<and> (\<forall>j<length xs. xs ! argmin_vec xs \<le> xs ! j)"
proof -
  from assms obtain x rest where xs: "xs = x # rest" by (cases xs) auto
  have "argmin_from rest (length [x]) 0 x < length ([x] @ rest) \<and>
         (\<forall>j<length ([x] @ rest). ([x] @ rest) ! argmin_from rest (length [x]) 0 x \<le> ([x] @ rest) ! j)"
    by (rule argmin_from_spec) auto
  with xs show ?thesis by (simp add: argmin_vec_def)
qed

lemma argmax_from_bound:
  "best < i \<Longrightarrow> argmax_from xs i best bv < i + length xs"
proof (induction xs arbitrary: i best bv)
  case Nil
  then show ?case by simp
next
  case (Cons x xs)
  have a: "argmax_from xs (Suc i) i x < Suc i + length xs"
    by (rule Cons.IH) simp
  have b: "argmax_from xs (Suc i) best bv < Suc i + length xs"
    by (rule Cons.IH) (use Cons.prems in simp)
  from a b show ?case by simp
qed

lemma argmax_vec_bound: "xs \<noteq> [] \<Longrightarrow> argmax_vec xs < length xs"
  using argmax_from_bound[of 0 1] by (cases xs) (auto simp: argmax_vec_def)

lemma wf_weight_rows:
  assumes "wf_quantizer self"
  shows "length (code_rows self) = n_embed self"
    and "\<forall>e \<in> set (code_rows self). length e = embed_dim self"
    and "n < n_embed self \<Longrightarrow> code_rows self ! n = norm_vec (use_norm self) (row (weight self) n)"
proof -
  from assms have sh: "shape (weight self) = [n_embed self, embed_dim self]"
    and wf: "wf_tensor (weight self)" by (simp_all add: wf_quantizer_def)
  show "length (code_rows self) = n_embed self" by (simp add: code_rows_def sh)
  show "\<forall>e \<in> set (code_rows self). length e = embed_dim self"
    using length_vector_in[OF wf] sh by (auto simp: code_rows_def inner_dim_def)
  show "code_rows self ! n = norm_vec (use_norm self) (row (weight self) n)" if "n < n_embed self"
    using that by (simp add: code_rows_def sh vectors_nth row_def)
qed

lemma vectors_weight_norm:
  assumes "wf_quantizer self"
  shows "vectors (norm_fn (use_norm self) (weight self)) = code_rows self"
  using assms by (simp add: code_rows_def wf_quantizer_def vectors_norm_fn)

lemma input_rows_props:
  assumes "shape z = [b, t, embed_dim self]" "wf_tensor z" "0 < embed_dim self"
  shows "view_rows (embed_dim self) z = Inr (Tensor [b * t, embed_dim self] (data z))"
    and "vectors (norm_fn (use_norm self) (Tensor [b * t, embed_dim self] (data z))) = input_rows self z"
    and "length (input_rows self z) = b * t"
    and "k < b * t \<Longrightarrow> input_rows self z ! k =
           norm_vec (use_norm self) (take (embed_dim self) (drop (k * embed_dim self) (data z)))"
proof -
  from assms have len: "length (data z) = b * t * embed_dim self"
    by (simp add: wf_tensor_def)
  with assms(3) have dv: "length (data z) div embed_dim self = b * t" by simp
  show "view_rows (embed_dim self) z = Inr (Tensor [b * t, embed_dim self] (data z))"
    using len assms(3) by (simp add: view_rows_def)
  have "wf_tensor (Tensor [b * t, embed_dim self] (data z))" by (simp add: wf_tensor_def len)
  then show "vectors (norm_fn (use_norm self) (Tensor [b * t, embed_dim self] (data z))) = input_rows self z"
    by (simp add: vectors_norm_fn input_rows_def dv)
  show "length (input_rows self z) = b * t" by (simp add: input_rows_def dv)
  show "input_rows self z ! k =
           norm_vec (use_norm self) (take (embed_dim self) (drop (k * embed_dim self) (data z)))"
    if "k < b * t" using that by (simp add: input_rows_def dv vectors_nth inner_dim_def)
qed

lemma nearest_bound:
  assumes "wf_quantizer self"
  shows "nearest self zr < n_embed self"
proof -
  have "map (dist_entry zr) (code_rows self) \<noteq> []"
    using assms wf_weight_rows(1)[OF assms] by (auto simp: wf_quantizer_def)
  from argmin_vec_spec[OF this] show ?thesis
    by (simp add: nearest_def wf_weight_rows(1)[OF assms])
qed

lemma quantize_closed:
  assumes wf: "wf_quantizer self" and sh: "shape z = [b, t, embed_dim self]"
    and wz: "wf_tensor z" and D: "0 < embed_dim self"
  shows "\<exists>loss. quantize self z =
           Inr (Tensor [b, t, embed_dim self]
                  (concat (map (\<lambda>zr. norm_vec (use_norm self) (row (weight self) (nearest self zr)))
                     (input_rows self z))),
                loss,
                Tensor [b, t] (map (nearest self) (input_rows self z)))"
proof -
  let ?D = "embed_dim self" and ?N = "n_embed self" and ?u = "use_norm self"
  let ?zs = "input_rows self z" and ?es = "code_rows self"
  let ?zr = "Tensor [b * t, ?D] (data z)"
  from wf have shw: "shape (weight self) = [?N, ?D]" and N: "0 < ?N"
    by (simp_all add: wf_quantizer_def)
  note ir = input_rows_props[OF sh wz D]
  have dist: "distances (norm_fn ?u ?zr) (norm_fn ?u (weight self)) =
      Inr (Tensor ([b * t] @ [?N]) (concat (map (\<lambda>zr. map (dist_entry zr) ?es) ?zs)))"
    by (simp add: distances_def shw inner_dim_def ir(2,3) vectors_weight_norm[OF wf]
        wf_weight_rows(1)[OF wf])
  have vd: "vectors (Tensor ([b * t] @ [?N]) (concat (map (\<lambda>zr. map (dist_entry zr) ?es) ?zs)))
      = map (\<lambda>zr. map (dist_entry zr) ?es) ?zs"
    by (rule vectors_concat) (auto simp: wf_weight_rows(1)[OF wf] ir(3))
  have am: "argmin_last (Tensor ([b * t] @ [?N]) (concat (map (\<lambda>zr. map (dist_entry zr) ?es) ?zs)))
      = Inr (Tensor [b * t] (map (nearest self) ?zs))"
    using N by (simp add: argmin_last_def inner_dim_def vd nearest_def comp_def del: append.simps)
  have vw: "view_args (take 2 (shape z)) (Tensor (shape (Tensor [b * t] (map (nearest self) ?zs)) @ [1])
        (data (Tensor [b * t] (map (nearest self) ?zs))))
      = Inr (Tensor [b, t] (map (nearest self) ?zs))"
    by (simp add: view_args_def view_def sh ir(3))
  have el: "embedding_lookup (weight self) (Tensor [b, t] (map (nearest self) ?zs))
      = Inr (Tensor ([b, t] @ [?D]) (concat (map (row (weight self)) (map (nearest self) ?zs))))"
    by (simp add: embedding_lookup_def shw inner_dim_def nearest_bound[OF wf])
  have rl: "\<forall>x \<in> set (map (row (weight self)) (map (nearest self) ?zs)). length x = ?D"
  proof
    fix x assume "x \<in> set (map (row (weight self)) (map (nearest self) ?zs))"
    then obtain n where n: "n < ?N" and x: "x = row (weight self) n"
      using nearest_bound[OF wf] by auto
    from wf_weight_rows(2,3)[OF wf] n wf_weight_rows(1)[OF wf]
    have "length (norm_vec ?u (row (weight self) n)) = ?D"
      by (metis nth_mem)
    with x show "length x = ?D" by simp
  qed
  have ln: "length (map (row (weight self)) (map (nearest self) ?zs)) = prod_list [b, t]"
    by (simp add: ir(3))
  have v2: "view (shape z) (Tensor ([b, t] @ [?D]) (concat (map (row (weight self)) (map (nearest self) ?zs))))
      = Inr (Tensor ([b, t] @ [?D]) (concat (map (row (weight self)) (map (nearest self) ?zs))))"
    using length_concat_uniform[OF rl] by (simp add: view_def sh ir(3))
  have nq: "norm_fn ?u (Tensor ([b, t] @ [?D]) (concat (map (row (weight self)) (map (nearest self) ?zs))))
      = Tensor ([b, t] @ [?D]) (concat (map (norm_vec ?u) (map (row (weight self)) (map (nearest self) ?zs))))"
    by (rule norm_fn_concat[OF rl ln])
  show ?thesis
    unfolding quantize_def ir(1) bind_err_simps Let_def dist am vw el v2 nq
    by (simp add: comp_def)
qed

section \<open>Facts about \<^verbatim>\<open>quantize\<close> on any input\<close>

lemma wf_F_normalize:
  assumes "wf_tensor x"
  shows "wf_tensor (F_normalize x)"
proof (cases "shape x = []")
  case True
  with assms have "length (data x) = 1" by (simp add: wf_tensor_def)
  with True show ?thesis
    by (simp add: wf_tensor_def F_normalize_def vectors_def inner_dim_def)
next
  case False
  then have sh: "shape x = butlast (shape x) @ [last (shape x)]" by simp
  have "prod_list (shape x) = prod_list (butlast (shape x)) * last (shape x)"
    by (subst sh) simp
  moreover have "\<forall>v \<in> set (map F_normalize_vec (vectors x)). length v = last (shape x)"
    using length_vector_in[OF assms False] False by (auto simp: inner_dim_def)
  then have "length (concat (map F_normalize_vec (vectors x))) =
      length (map F_normalize_vec (vectors x)) * last (shape x)"
    by (rule length_concat_uniform)
  ultimately show ?thesis by (simp add: wf_tensor_def F_normalize_def)
qed

lemma wf_norm_fn: "wf_tensor x \<Longrightarrow> wf_tensor (norm_fn u x)"
  by (simp add: norm_fn_def wf_F_normalize)

lemma quantize_InrE:
  assumes "quantize self z = Inr (zq, l, idx)"
  obtains zr d am e z_q where
    "view_rows (embed_dim self) z = Inr zr"
    "distances (norm_fn (use_norm self) zr) (norm_fn (use_norm self) (weight self)) = Inr d"
    "argmin_last d = Inr am"
    "view_args (take 2 (shape z)) (Tensor (shape am @ [1]) (data am)) = Inr idx"
    "embedding_lookup (weight self) idx = Inr e"
    "view (shape z) e = Inr z_q"
    "zq = norm_fn (use_norm self) z_q"
  using assms unfolding quantize_def bind_err_def Let_def
  by (auto split: sum.splits)

lemma view_Inr: "view shp x = Inr y \<Longrightarrow> shape y = shp \<and> data y = data x \<and> wf_tensor y"
  by (auto simp: view_def wf_tensor_def split: if_splits)

lemma view_args_Inr:
  "view_args shp x = Inr y \<Longrightarrow> shape y = shp \<and> data y = data x \<and> wf_tensor y"
  by (auto simp: view_args_def dest: view_Inr split: if_splits)

lemma view_rows_Inr:
  "view_rows D x = Inr y \<Longrightarrow>
     0 < D \<and> shape y = [length (data x) div D, D] \<and> data y = data x \<and> wf_tensor y"
  by (auto simp: view_rows_def wf_tensor_def split: if_splits)

lemma quantize_shape:
  assumes "quantize self z = Inr (zq, l, idx)"
  shows "shape zq = shape z \<and> wf_tensor zq"
proof -
  from assms obtain e z_q where v: "view (shape z) e = Inr z_q"
    and zq: "zq = norm_fn (use_norm self) z_q" by (rule quantize_InrE)
  from view_Inr[OF v] zq show ?thesis by (simp add: wf_norm_fn)
qed

lemma distances_rows:
  assumes wf: "wf_quantizer self"
    and d: "distances zs (norm_fn (use_norm self) (weight self)) = Inr d"
  shows "inner_dim (shape d) = n_embed self"
    and "\<forall>v \<in> set (vectors d). length v = n_embed self"
proof -
  let ?es = "vectors (norm_fn (use_norm self) (weight self))"
  let ?rows = "map (\<lambda>zr. map (dist_entry zr) ?es) (vectors zs)"
  from wf have shw: "shape (weight self) = [n_embed self, embed_dim self]"
    by (simp add: wf_quantizer_def)
  then have n: "length ?es = n_embed self" by simp
  from d have dd: "d = Tensor ([length (vectors zs)] @ [length ?es]) (concat ?rows)"
    by (auto simp: distances_def split: if_splits)
  have "vectors (Tensor ([length (vectors zs)] @ [length ?es]) (concat ?rows)) = ?rows"
    by (rule vectors_concat) auto
  with dd n show "\<forall>v \<in> set (vectors d). length v = n_embed self" by auto
  from dd n show "inner_dim (shape d) = n_embed self" by (simp add: inner_dim_def)
qed

lemma argmin_last_bound:
  assumes wf: "wf_quantizer self"
    and d: "distances zs (norm_fn (use_norm self) (weight self)) = Inr d"
  shows "\<exists>am. argmin_last d = Inr am \<and> (\<forall>i \<in> set (data am). i < n_embed self)"
proof -
  from wf have N: "0 < n_embed self" by (simp add: wf_quantizer_def)
  note dr = distances_rows[OF wf d]
  have "argmin_vec v < n_embed self" if "v \<in> set (vectors d)" for v
  proof -
    from that dr(2) N have "v \<noteq> []" and "length v = n_embed self" by auto
    with argmin_vec_spec[of v] show ?thesis by simp
  qed
  with N dr(1) show ?thesis by (auto simp: argmin_last_def)
qed

lemma quantize_indices_bound:
  assumes wf: "wf_quantizer self" and q: "quantize self z = Inr (zq, l, idx)"
  shows "\<forall>i \<in> set (data idx). i < n_embed self"
proof -
  from q obtain zr d am where
    d: "distances (norm_fn (use_norm self) zr) (norm_fn (use_norm self) (weight self)) = Inr d"
    and am: "argmin_last d = Inr am"
    and v: "view_args (take 2 (shape z)) (Tensor (shape am @ [1]) (data am)) = Inr idx"
    by (rule quantize_InrE)
  from argmin_last_bound[OF wf d] am have "\<forall>i \<in> set (data am). i < n_embed self" by simp
  with view_args_Inr[OF v] show ?thesis by simp
qed

lemma quantize_no_IndexError:
  assumes wf: "wf_quantizer self"
  shows "quantize self z \<noteq> Inl IndexError"
proof (cases "view_rows (embed_dim self) z")
  case (Inl e)
  then show ?thesis by (auto simp: quantize_def view_rows_def split: if_splits)
next
  case zr: (Inr zr)
  show ?thesis
  proof (cases "distances (norm_fn (use_norm self) zr) (norm_fn (use_norm self) (weight self))")
    case (Inl e)
    with zr show ?thesis by (auto simp: quantize_def distances_def split: if_splits)
  next
    case d: (Inr d)
    from argmin_last_bound[OF wf d] obtain am where am: "argmin_last d = Inr am"
      and b: "\<forall>i \<in> set (data am). i < n_embed self" by blast
    show ?thesis
    proof (cases "view_args (take 2 (shape z)) (Tensor (shape am @ [1]) (data am))")
      case (Inl e)
      with zr d am show ?thesis
        by (auto simp: quantize_def view_args_def view_def split: if_splits)
    next
      case idx: (Inr idx)
      from view_args_Inr[OF idx] b wf
      have el: "embedding_lookup (weight self) idx =
          Inr (Tensor (shape idx @ [inner_dim (shape (weight self))])
                 (concat (map (row (weight self)) (data idx))))"
        by (simp add: embedding_lookup_def wf_quantizer_def)
      show ?thesis
        using zr d am idx el
        by (auto simp: quantize_def Let_def view_def split: if_splits)
    qed
  qed
qed

lemma flat_index_bound: "i < b \<Longrightarrow> j < t \<Longrightarrow> i * t + j < b * (t::nat)"
proof -
  assume "i < b" "j < t"
  then have "i * t + j < Suc i * t" by simp
  also have "\<dots> \<le> b * t" using \<open>i < b\<close> by (intro mult_le_mono1) simp
  finally show ?thesis .
qed

section \<open>\<^verbatim>\<open>VectorQuantizer.quantize\<close>\<close>

lemma example_hyps:
  "wf_quantizer vq_example" "shape z_example = [1, 2, embed_dim vq_example]"
  "wf_tensor z_example" "0 < embed_dim vq_example"
  by (simp_all add: wf_quantizer_def vq_example_def z_example_def wf_tensor_def)

lemma upt_2: "[0..<2] = [0, 1]"
  by (simp add: upt_rec)

lemmas quantize_eval =
  quantize_def view_rows_def norm_fn_def distances_def vectors_def inner_dim_def
  dist_entry_def sq_sum_def dot_def argmin_last_def argmin_vec_def view_args_def view_def
  embedding_lookup_def row_def tmean_def mean_list_def tsquare_def tsub_def lift2_def
  upt_2 power2_eq_square

lemma quantize_example:
  "quantize vq_example z_example =
     Inr (Tensor [1, 2, 2] [1, 1, 0, 0], Some (1 / 32), Tensor [1, 2] [1, 0])"
  by (simp add: vq_example_def z_example_def quantize_eval)

lemma quantize_at_positions:
  assumes "wf_quantizer self" and "shape z = [b, t, embed_dim self]"
    and "wf_tensor z" and "0 < embed_dim self"
  shows "\<exists>z_q loss encoding_indices.
           quantize self z = Inr (z_q, loss, encoding_indices) \<and>
           shape z_q = [b, t, embed_dim self] \<and> shape encoding_indices = [b, t] \<and>
           (\<forall>i<b. \<forall>j<t.
              at2 encoding_indices i j < n_embed self \<and>
              at3 z_q i j =
                norm_vec (use_norm self) (row (weight self) (at2 encoding_indices i j)))"
proof -
  let ?zs = "input_rows self z"
  let ?f = "\<lambda>zr. norm_vec (use_norm self) (row (weight self) (nearest self zr))"
  from quantize_closed[OF assms] obtain loss where
    q: "quantize self z =
          Inr (Tensor [b, t, embed_dim self] (concat (map ?f ?zs)), loss,
               Tensor [b, t] (map (nearest self) ?zs))" by blast
  note ir = input_rows_props[OF assms(2,3,4)]
  have len: "\<forall>x \<in> set (map ?f ?zs). length x = embed_dim self"
  proof
    fix x assume "x \<in> set (map ?f ?zs)"
    then obtain zr where x: "x = ?f zr" by auto
    have "nearest self zr < n_embed self" by (rule nearest_bound[OF assms(1)])
    with wf_weight_rows[OF assms(1)] have "length (?f zr) = embed_dim self"
      by (metis nth_mem)
    with x show "length x = embed_dim self" by simp
  qed
  have pos: "at2 (Tensor [b, t] (map (nearest self) ?zs)) i j < n_embed self \<and>
      at3 (Tensor [b, t, embed_dim self] (concat (map ?f ?zs))) i j =
        norm_vec (use_norm self) (row (weight self) (at2 (Tensor [b, t] (map (nearest self) ?zs)) i j))"
    if "i < b" "j < t" for i j
  proof -
    from that have k: "i * t + j < length ?zs" by (simp add: ir(3) flat_index_bound)
    then have k': "i * t + j < length (map ?f ?zs)" by simp
    have "take (embed_dim self) (drop ((i * t + j) * embed_dim self) (concat (map ?f ?zs)))
        = map ?f ?zs ! (i * t + j)"
      by (rule take_drop_concat_uniform[OF len k'])
    with k show ?thesis
      by (simp add: at2_def at3_def nearest_bound[OF assms(1)])
  qed
  show ?thesis
    unfolding q using pos by (intro exI conjI) (rule refl, simp, simp, blast)
qed

text \<open>
  Claim C1. For an input \<open>z\<close> of shape \<open>(b, t, embed_dim)\<close>, \<^verbatim>\<open>quantize\<close> returns, and
  the vector of its first component at each position \<open>(i, j)\<close> is the codebook row
  \<^verbatim>\<open>embedding.weight[encoding_indices[i, j]]\<close>, passed through \<^verbatim>\<open>self.norm\<close>
  (normalized when \<^verbatim>\<open>use_norm\<close> is true, unchanged otherwise); the index is one of the
  \<open>n_embed\<close> rows of the codebook.
\<close>

theorem quantize_returns_codebook_rows:
  assumes "wf_quantizer self" and "shape z = [b, t, embed_dim self]"
    and "wf_tensor z" and "0 < embed_dim self"
  shows "\<exists>z_q loss encoding_indices.
           quantize self z = Inr (z_q, loss, encoding_indices) \<and>
           shape z_q = [b, t, embed_dim self] \<and> shape encoding_indices = [b, t] \<and>
           (\<forall>i<b. \<forall>j<t.
              at2 encoding_indices i j < n_embed self \<and>
              at3 z_q i j =
                norm_vec (use_norm self) (row (weight self) (at2 encoding_indices i j)))"
  using assms by (rule quantize_at_positions)

theorem quantize_returns_codebook_rows_witness:
  "wf_quantizer vq_example \<and> shape z_example = [1, 2, embed_dim vq_example] \<and>
   wf_tensor z_example \<and> 0 < embed_dim vq_example \<and>
   (\<exists>z_q loss encoding_indices.
      quantize vq_example z_example = Inr (z_q, loss, encoding_indices) \<and>
      at2 encoding_indices 0 1 < n_embed vq_example \<and>
      at3 z_q 0 1 =
        norm_vec (use_norm vq_example) (row (weight vq_example) (at2 encoding_indices 0 1)))"
proof -
  from quantize_returns_codebook_rows[OF example_hyps]
  obtain z_q loss encoding_indices where
    "quantize vq_example z_example = Inr (z_q, loss, encoding_indices)"
    "\<forall>i<1. \<forall>j<2. at2 encoding_indices i j < n_embed vq_example \<and>
       at3 z_q i j =
         norm_vec (use_norm vq_example) (row (weight vq_example) (at2 encoding_indices i j))"
    by blast
  then show ?thesis using example_hyps by (intro conjI exI) auto
qed

section \<open>Norms of the quantized vectors\<close>




section \<open>The range of the indices\<close>

lemma argmax_last_bound:
  assumes "argmax_last s = Inr idx"
  shows "\<forall>i \<in> set (data idx). i < inner_dim (shape s)"
proof
  fix i assume i: "i \<in> set (data idx)"
  from assms have N: "inner_dim (shape s) \<noteq> 0"
    and idx: "data idx = map argmax_vec (vectors s)"
    by (auto simp: argmax_last_def split: if_splits)
  from i idx obtain v where v: "v \<in> set (vectors s)" and iv: "i = argmax_vec v" by auto
  from v have len: "length v \<le> inner_dim (shape s)" by (auto simp: vectors_def)
  show "i < inner_dim (shape s)"
  proof (cases "v = []")
    case True
    with iv N show ?thesis by (simp add: argmax_vec_def)
  next
    case False
    from argmax_vec_bound[OF False] len iv show ?thesis by simp
  qed
qed

lemma gumbel_quantize_InrE:
  assumes "gumbel_quantize gs self z temp = Inr (zq, l, idx)"
  obtains zr lg2 lg where
    "view_rows (g_embed_dim self) z = Inr zr"
    "logits_matrix (norm_fn (g_use_norm self) zr)
       (norm_fn (g_use_norm self) (g_weight self)) = Inr lg2"
    "view_infer_last (take 2 (shape z)) lg2 = Inr lg"
    "argmax_last
       (gs (case temp of None \<Rightarrow> g_temperature self | Some t \<Rightarrow> t) (\<not> g_training self) lg)
     = Inr idx"
  using assms unfolding gumbel_quantize_def bind_err_def Let_def
  by (auto split: sum.splits if_splits)

lemma gumbel_logits_shape:
  assumes wf: "wf_gumbel self" and sh: "shape z = [b, t, g_embed_dim self]"
    and wz: "wf_tensor z"
    and zr: "view_rows (g_embed_dim self) z = Inr zr"
    and l2: "logits_matrix (norm_fn (g_use_norm self) zr)
       (norm_fn (g_use_norm self) (g_weight self)) = Inr lg2"
    and lg: "view_infer_last (take 2 (shape z)) lg2 = Inr lg"
  shows "shape lg = [b, t, g_n_embed self]"
proof -
  let ?N = "g_n_embed self" and ?D = "g_embed_dim self"
  let ?zs = "vectors (norm_fn (g_use_norm self) zr)"
  let ?es = "vectors (norm_fn (g_use_norm self) (g_weight self))"
  from wf have shw: "shape (g_weight self) = [?N, ?D]" by (simp add: wf_gumbel_def)
  from sh wz have len: "length (data z) = b * t * ?D" by (simp add: wf_tensor_def)
  from view_rows_Inr[OF zr] len have szr: "shape zr = [b * t, ?D]" by simp
  then have nz: "length ?zs = b * t" by simp
  from shw have ne: "length ?es = ?N" by simp
  let ?rows = "map (\<lambda>zr. map (logit_entry zr) ?es) ?zs"
  from l2 have "data lg2 = concat ?rows"
    by (auto simp: logits_matrix_def split: if_splits)
  moreover have "length (concat ?rows) = length ?rows * ?N"
    by (rule length_concat_uniform) (use ne in auto)
  ultimately have ll: "length (data lg2) = b * t * ?N" by (simp add: szr)
  from lg sh have "b * t \<noteq> 0" and "shape lg = [b, t, length (data lg2) div (b * t)]"
    by (auto simp: view_infer_last_def split: if_splits)
  with ll show ?thesis by simp
qed

lemma gumbel_indices_bound:
  assumes wf: "wf_gumbel self" and sh: "shape z = [b, t, g_embed_dim self]"
    and wz: "wf_tensor z" and gs: "\<forall>tau hard x. shape (gs tau hard x) = shape x"
    and q: "gumbel_quantize gs self z temp = Inr (zq, l, idx)"
  shows "\<forall>i \<in> set (data idx). i < g_n_embed self"
proof -
  from q obtain zr lg2 lg where
    zr: "view_rows (g_embed_dim self) z = Inr zr"
    and l2: "logits_matrix (norm_fn (g_use_norm self) zr)
       (norm_fn (g_use_norm self) (g_weight self)) = Inr lg2"
    and lg: "view_infer_last (take 2 (shape z)) lg2 = Inr lg"
    and a: "argmax_last
       (gs (case temp of None \<Rightarrow> g_temperature self | Some t \<Rightarrow> t) (\<not> g_training self) lg)
     = Inr idx"
    by (rule gumbel_quantize_InrE)
  from gumbel_logits_shape[OF wf sh wz zr l2 lg] gs
  have "inner_dim (shape (gs (case temp of None \<Rightarrow> g_temperature self | Some t \<Rightarrow> t)
          (\<not> g_training self) lg)) = g_n_embed self"
    by (simp add: inner_dim_def)
  with argmax_last_bound[OF a] show ?thesis by simp
qed

lemma gumbel_quantize_example:
  "\<exists>z_q loss. gumbel_quantize gs_example gq_example z_example None =
     Inr (z_q, loss, Tensor [1, 2] [1, 0])"
  by (simp add: gumbel_quantize_def gq_example_def gs_example_def z_example_def view_rows_def
      norm_fn_def logits_matrix_def vectors_def inner_dim_def logit_entry_def sq_sum_def
      dot_def view_infer_last_def einsum_btn_nd_def argmax_last_def argmax_vec_def upt_2
      power2_eq_square Let_def)

lemma gumbel_quantize_example1:
  "\<exists>z_q loss. gumbel_quantize gs1_example gq1_example z4_example None =
     Inr (z_q, loss, Tensor [1, 1] [1])"
  by (simp add: gumbel_quantize_def gq1_example_def gs1_example_def z4_example_def
      view_rows_def norm_fn_def logits_matrix_def vectors_def inner_dim_def logit_entry_def
      sq_sum_def dot_def view_infer_last_def einsum_btn_nd_def argmax_last_def
      argmax_vec_def upt_2 power2_eq_square Let_def)

text \<open>
  Claim C7, as stated: every index returned by \<^verbatim>\<open>GumbelQuantizer.quantize\<close> is below
  \<open>n_embed\<close>. It fails on an input whose last dimension is not \<open>embed_dim\<close>: with one
  codebook row in dimension two and \<open>z\<close> of shape \<open>(1, 1, 4)\<close> the logits have shape
  \<open>(1, 1, 2)\<close>, the einsum of line 127 broadcasts the single codebook row, and
  \<^verbatim>\<open>argmax\<close> returns 1 when the second entry of \<open>soft_one_hot\<close> is the larger.
\<close>

theorem gumbel_index_out_of_range:
  "wf_gumbel gq1_example \<and>
   map_sum id (snd \<circ> snd) (gumbel_quantize gs1_example gq1_example z4_example None)
     = Inr (Tensor [1, 1] [1]) \<and>
   \<not> (1 < g_n_embed gq1_example)"
proof -
  from gumbel_quantize_example1 obtain z_q loss where
    "gumbel_quantize gs1_example gq1_example z4_example None
       = Inr (z_q, loss, Tensor [1, 1] [1])" by blast
  then show ?thesis by (simp add: wf_gumbel_def gq1_example_def wf_tensor_def)
qed

text \<open>
  Claim C7, amended: every index returned by \<^verbatim>\<open>VectorQuantizer.quantize\<close> is below
  \<open>n_embed\<close>, on every input, and the lookup in the embedding table (line 83) never
  raises IndexError; every index returned by \<^verbatim>\<open>GumbelQuantizer.quantize\<close> is below
  \<open>n_embed\<close> when the input has shape \<open>(b, t, embed_dim)\<close>, whatever the values that
  \<^verbatim>\<open>F.gumbel_softmax\<close> returns in the shape of its argument.
\<close>

theorem encoding_indices_in_range:
  assumes "wf_quantizer self" and "wf_gumbel g"
    and "shape z' = [b, t, g_embed_dim g]" and "wf_tensor z'"
    and "\<forall>tau hard x. shape (gumbel_softmax tau hard x) = shape x"
  shows "quantize self z \<noteq> Inl IndexError \<and>
         (\<forall>z_q loss idx. quantize self z = Inr (z_q, loss, idx) \<longrightarrow>
            (\<forall>i \<in> set (data idx). i < n_embed self)) \<and>
         (\<forall>z_q loss idx. gumbel_quantize gumbel_softmax g z' temp = Inr (z_q, loss, idx) \<longrightarrow>
            (\<forall>i \<in> set (data idx). i < g_n_embed g))"
  using quantize_no_IndexError[OF assms(1)] quantize_indices_bound[OF assms(1)]
    gumbel_indices_bound[OF assms(2-5)]
  by blast

theorem encoding_indices_in_range_witness:
  "wf_quantizer vq_example \<and> wf_gumbel gq_example \<and>
   shape z_example = [1, 2, g_embed_dim gq_example] \<and> wf_tensor z_example \<and>
   quantize vq_example z_example \<noteq> Inl IndexError \<and>
   (\<exists>z_q loss. quantize vq_example z_example = Inr (z_q, loss, Tensor [1, 2] [1, 0])) \<and>
   (\<exists>z_q loss. gumbel_quantize gs_example gq_example z_example None =
      Inr (z_q, loss, Tensor [1, 2] [1, 0])) \<and>
   list_all (\<lambda>i. i < n_embed vq_example) [1, 0] \<and>
   list_all (\<lambda>i. i < g_n_embed gq_example) [1, 0]"
proof -
  have w: "wf_gumbel gq_example" by (simp add: wf_gumbel_def gq_example_def wf_tensor_def)
  have sh: "shape z_example = [1, 2, g_embed_dim gq_example]"
    by (simp add: z_example_def gq_example_def)
  have gs: "\<forall>tau hard x. shape (gs_example tau hard x) = shape x"
    by (simp add: gs_example_def)
  from gumbel_quantize_example obtain z_q loss where
    g: "gumbel_quantize gs_example gq_example z_example None =
          Inr (z_q, loss, Tensor [1, 2] [1, 0])" by blast
  from encoding_indices_in_range[OF example_hyps(1) w sh example_hyps(3) gs, of z_example None]
    quantize_example g
  have "quantize vq_example z_example \<noteq> Inl IndexError"
    and "\<forall>i \<in> set (data (Tensor [1, 2] [1, 0::nat])). i < n_embed vq_example"
    and "\<forall>i \<in> set (data (Tensor [1, 2] [1, 0::nat])). i < g_n_embed gq_example"
    by blast+
  with w sh g quantize_example example_hyps(1,3) show ?thesis by simp
qed

section \<open>\<^verbatim>\<open>forward\<close>\<close>

lemma wf_tadd:
  assumes "shape a = shape b" "wf_tensor a" "wf_tensor b"
  shows "shape (tadd a b) = shape a \<and> wf_tensor (tadd a b)"
  using assms by (simp add: tadd_def wf_tensor_def)

lemma wf_tsub:
  assumes "shape a = shape b" "wf_tensor a" "wf_tensor b"
  shows "shape (tsub a b) = shape a \<and> wf_tensor (tsub a b)"
  using assms by (simp add: tsub_def wf_tensor_def)

lemma wf_zeros_like: "wf_tensor z \<Longrightarrow> shape (zeros_like z) = shape z \<and> wf_tensor (zeros_like z)"
  by (simp add: zeros_like_def wf_tensor_def)

lemma residual_loop_shape:
  assumes "residual_loop self n (z_q, r, ls, is) = Inr (z_q', r', ls', is')"
    and "shape z_q = shape r" "wf_tensor z_q" "wf_tensor r"
  shows "shape z_q' = shape r \<and> wf_tensor z_q'"
  using assms
proof (induction n arbitrary: z_q r ls "is")
  case 0
  then show ?case by simp
next
  case (Suc n)
  from Suc.prems(1) obtain z_qi l i where
    q: "quantize self r = Inr (z_qi, l, i)" and
    rest: "residual_loop self n (tadd z_q z_qi, tsub r z_qi, ls @ [l], is @ [i])
             = Inr (z_q', r', ls', is')"
    by (cases "quantize self r") auto
  from quantize_shape[OF q] have qi: "shape z_qi = shape r" "wf_tensor z_qi" by simp_all
  from wf_tadd[of z_q z_qi] qi Suc.prems
  have a: "shape (tadd z_q z_qi) = shape r" "wf_tensor (tadd z_q z_qi)" by simp_all
  from wf_tsub[of r z_qi] qi Suc.prems
  have s: "shape (tsub r z_qi) = shape r" "wf_tensor (tsub r z_qi)" by simp_all
  from Suc.IH[OF rest] a s show ?case by simp
qed

lemma forward_body_shape:
  assumes wz: "wf_tensor z" and b: "forward_body self z = Inr (z_q, loss, idx)"
  shows "shape z_q = shape z \<and> wf_tensor z_q"
proof (cases "use_residual self")
  case False
  with b have "quantize self z = Inr (z_q, loss, idx)" by (simp add: forward_body_def)
  then show ?thesis by (rule quantize_shape)
next
  case True
  with b obtain k where k: "num_quantizers self = Some k"
    by (cases "num_quantizers self") (auto simp: forward_body_def)
  with b True obtain zq' r' ls' is' where
    l: "residual_loop self (nat k) (zeros_like z, z, [], []) = Inr (zq', r', ls', is')"
    and e: "z_q = zq'"
    by (cases "residual_loop self (nat k) (zeros_like z, z, [], [])")
       (auto simp: forward_body_def bind_err_def split: sum.splits)
  from residual_loop_shape[OF l] wf_zeros_like[OF wz] wz e show ?thesis by simp
qed

lemma forward_shape:
  assumes "wf_tensor z" and "forward_body self z = Inr (z_q, loss, idx)"
  shows "\<exists>z_q'. forward self z = Inr (z_q', loss, idx) \<and> shape z_q' = shape z \<and> wf_tensor z_q'"
proof -
  from forward_body_shape[OF assms] have s: "shape z_q = shape z" "wf_tensor z_q" by simp_all
  from wf_tsub[of z_q z] s assms(1)
  have d: "shape (tsub z_q z) = shape z" "wf_tensor (tsub z_q z)" by simp_all
  from wf_tadd[of z "tsub z_q z"] d assms(1)
  have "shape (tadd z (tsub z_q z)) = shape z" "wf_tensor (tadd z (tsub z_q z))" by simp_all
  with s assms(2) show ?thesis by (simp add: forward_def)
qed

lemma residual_loop_stages:
  "residual_loop self n (z_q, r, ls, is) =
     bind_err (stages self n r) (\<lambda>sts.
       Inr (foldl tadd z_q (map fst sts), foldl tsub r (map fst sts),
            ls @ map (fst \<circ> snd) sts, is @ map (snd \<circ> snd) sts))"
proof (induction n arbitrary: z_q r ls "is")
  case 0
  then show ?case by simp
next
  case (Suc n)
  show ?case
  proof (cases "quantize self r")
    case (Inl e)
    then show ?thesis by simp
  next
    case (Inr res)
    obtain q l i where res: "res = (q, l, i)" by (cases res)
    show ?thesis
    proof (cases "stages self n (tsub r q)")
      case (Inl e)
      with Inr res Suc.IH show ?thesis by simp
    next
      case sts: (Inr sts)
      with Inr res Suc.IH show ?thesis by simp
    qed
  qed
qed

lemma quantize_ok:
  assumes "wf_quantizer self" "shape r = [b, t, embed_dim self]" "wf_tensor r" "0 < embed_dim self"
  shows "\<exists>s. quantize self r = Inr s \<and> stage_ok b t (embed_dim self) s"
proof -
  from quantize_closed[OF assms] obtain loss where
    q: "quantize self r =
          Inr (Tensor [b, t, embed_dim self]
                 (concat (map (\<lambda>zr. norm_vec (use_norm self) (row (weight self) (nearest self zr)))
                    (input_rows self r))), loss,
               Tensor [b, t] (map (nearest self) (input_rows self r)))" by blast
  from quantize_shape[OF q] assms(2) input_rows_props(3)[OF assms(2,3,4)]
  show ?thesis unfolding q by (simp add: stage_ok_def wf_tensor_def)
qed

lemma stages_ok:
  assumes "wf_quantizer self" "0 < embed_dim self"
    and "shape r = [b, t, embed_dim self]" "wf_tensor r"
  shows "\<exists>sts. stages self n r = Inr sts \<and> length sts = n \<and>
           list_all (stage_ok b t (embed_dim self)) sts"
  using assms(3,4)
proof (induction n arbitrary: r)
  case 0
  then show ?case by simp
next
  case (Suc n)
  from quantize_ok[OF assms(1) Suc.prems(1,2) assms(2)] obtain q l i where
    q: "quantize self r = Inr (q, l, i)" and ok: "stage_ok b t (embed_dim self) (q, l, i)"
    by (metis prod_cases3)
  from ok Suc.prems wf_tsub[of r q]
  have "shape (tsub r q) = [b, t, embed_dim self]" "wf_tensor (tsub r q)"
    by (simp_all add: stage_ok_def)
  from Suc.IH[OF this] obtain sts where
    "stages self n (tsub r q) = Inr sts" "length sts = n"
    "list_all (stage_ok b t (embed_dim self)) sts" by blast
  with q ok show ?case by simp
qed

lemma stack_last_at:
  assumes "idxs \<noteq> []" and "list_all (\<lambda>u. shape u = [b, t] \<and> wf_tensor u) idxs"
  shows "\<exists>s. stack_last idxs = Inr s \<and> shape s = [b, t, length idxs] \<and> wf_tensor s \<and>
           (\<forall>i<b. \<forall>j<t. at3 s i j = map (\<lambda>u. at2 u i j) idxs)"
proof -
  from assms obtain u0 rest where ne: "idxs = u0 # rest" by (cases idxs) auto
  from assms(2) have all: "\<forall>u \<in> set idxs. shape u = [b, t] \<and> length (data u) = b * t"
    by (auto simp: list_all_iff wf_tensor_def)
  with ne have u0: "shape u0 = [b, t]" "length (data u0) = b * t" by simp_all
  let ?rows = "map (\<lambda>p. map (\<lambda>u. data u ! p) idxs) [0..<b * t]"
  let ?s = "Tensor ([b, t] @ [length idxs]) (concat ?rows)"
  have st: "stack_last idxs = Inr ?s"
    using all u0 ne by (simp add: stack_last_def)
  have uni: "\<forall>x \<in> set ?rows. length x = length idxs" by auto
  have wf: "wf_tensor ?s"
    using length_concat_uniform[OF uni] by (simp add: wf_tensor_def)
  have pos: "at3 ?s i j = map (\<lambda>u. at2 u i j) idxs" if "i < b" "j < t" for i j
  proof -
    from that have k: "i * t + j < length ?rows" by (simp add: flat_index_bound)
    have "take (length idxs) (drop ((i * t + j) * length idxs) (concat ?rows)) = ?rows ! (i * t + j)"
      by (rule take_drop_concat_uniform[OF uni k])
    also have "\<dots> = map (\<lambda>u. data u ! (i * t + j)) idxs" using k by simp
    also have "\<dots> = map (\<lambda>u. at2 u i j) idxs"
      using all by (intro map_cong) (auto simp: at2_def)
    finally show ?thesis by (simp add: at3_def)
  qed
  from st wf pos show ?thesis by (intro exI[of _ ?s]) simp
qed

lemma mean_scalars_eq: "ls \<noteq> [] \<Longrightarrow> mean_scalars ls = mean_of_losses ls"
  by (auto simp: mean_scalars_def mean_of_losses_def mean_list_def list_all_iff)

lemma forward_body_residual:
  assumes wf: "wf_quantizer self" and sh: "shape z = [b, t, embed_dim self]"
    and wz: "wf_tensor z" and D: "0 < embed_dim self"
    and res: "use_residual self" and nq: "num_quantizers self = Some (int n)" and n: "0 < n"
  shows "\<exists>sts idx.
           stages self n z = Inr sts \<and> length sts = n \<and>
           list_all (stage_ok b t (embed_dim self)) sts \<and>
           forward_body self z =
             Inr (foldl tadd (zeros_like z) (map fst sts),
                  mean_of_losses (map (fst \<circ> snd) sts), idx) \<and>
           shape idx = [b, t, n] \<and> wf_tensor idx \<and>
           (\<forall>i<b. \<forall>j<t. at3 idx i j = map (\<lambda>s. at2 (snd (snd s)) i j) sts)"
proof -
  from stages_ok[OF wf D sh wz, of n] obtain sts where
    st: "stages self n z = Inr sts" and len: "length sts = n"
    and ok: "list_all (stage_ok b t (embed_dim self)) sts" by blast
  from len n have ne: "sts \<noteq> []" by auto
  have "map (snd \<circ> snd) sts \<noteq> []" using ne by simp
  moreover have "list_all (\<lambda>u. shape u = [b, t] \<and> wf_tensor u) (map (snd \<circ> snd) sts)"
    using ok by (auto simp: list_all_iff stage_ok_def)
  ultimately obtain idx where
    sl: "stack_last (map (snd \<circ> snd) sts) = Inr idx"
    and shi: "shape idx = [b, t, length (map (snd \<circ> snd) sts)]" and wfi: "wf_tensor idx"
    and pos: "\<forall>i<b. \<forall>j<t. at3 idx i j = map (\<lambda>u. at2 u i j) (map (snd \<circ> snd) sts)"
    using stack_last_at by blast
  have ss: "stack_scalars (map (fst \<circ> snd) sts) = Inr (map (fst \<circ> snd) sts)"
    using ne by (simp add: stack_scalars_def)
  have ms: "mean_scalars (map (fst \<circ> snd) sts) = mean_of_losses (map (fst \<circ> snd) sts)"
    using ne by (intro mean_scalars_eq) simp
  have "forward_body self z =
      Inr (foldl tadd (zeros_like z) (map fst sts), mean_of_losses (map (fst \<circ> snd) sts), idx)"
    using res nq by (simp add: forward_body_def residual_loop_stages st ss sl ms)
  with st len ok shi wfi pos show ?thesis by (intro exI[of _ sts] exI[of _ idx]) (simp add: comp_def)
qed

lemma residual_example_hyps:
  "wf_quantizer vq_residual_example"
  "shape z_example = [1, 2, embed_dim vq_residual_example]"
  "0 < embed_dim vq_residual_example"
  "use_residual vq_residual_example"
  "num_quantizers vq_residual_example = Some (int 2)"
  by (simp_all add: vq_residual_example_def wf_quantizer_def vq_example_def z_example_def
      wf_tensor_def)

lemma residual_loop_two: "residual_loop self 2 = residual_loop self (Suc (Suc 0))"
  by (simp add: numeral_2_eq_2)

lemmas forward_eval =
  forward_def forward_body_def stack_scalars_def stack_last_def mean_scalars_def
  tadd_def zeros_like_def residual_loop_two

lemma forward_residual_example:
  "forward vq_residual_example z_example =
     Inr (Tensor [1, 2, 2] [1, 1, 0, 0], Some (1 / 32), Tensor [1, 2, 2] [1, 0, 0, 0])"
  by (simp add: vq_residual_example_def vq_example_def z_example_def forward_eval quantize_eval)

text \<open>
  Claim C6, as stated: every call to \<^verbatim>\<open>forward\<close> returns a triple. It fails on the
  quantizer that \<^verbatim>\<open>VectorQuantizer(2, 2, use_residual=True)\<close> builds:
  \<^verbatim>\<open>num_quantizers\<close> is \<^verbatim>\<open>None\<close> and \<^verbatim>\<open>range(None)\<close> raises TypeError.
\<close>

theorem forward_raises_without_num_quantizers:
  "VectorQuantizer_init 2 2 (1 / 4) True True None w0_example = Inr vq_init_example \<and>
   forward vq_init_example z_example = Inl TypeError"
  by (simp add: VectorQuantizer_init_def vq_init_example_def w0_example_def forward_def
      forward_body_def upt_rec)

text \<open>
  Claim C6, amended: on a VectorQuantizer with \<open>embed_dim \<ge> 1\<close>, for a contiguous input
  of shape \<open>(b, t, embed_dim)\<close> (more generally one whose strides allow
  \<^verbatim>\<open>z.view(-1, embed_dim)\<close>) and, in residual mode, \<^verbatim>\<open>num_quantizers\<close> an integer \<open>\<ge> 1\<close>,
  \<^verbatim>\<open>forward\<close> returns a triple of a quantized tensor, a loss and an index tensor (of
  natural numbers), and in the non-residual case the quantized tensor has the shape of
  \<open>z\<close>.
\<close>

theorem forward_returns_triple:
  assumes "wf_quantizer self" and "arg_view_ok a"
    and "shape (arg_tensor a) = [b, t, embed_dim self]"
    and "wf_tensor (arg_tensor a)" and "0 < embed_dim self"
    and "use_residual self \<longrightarrow> (\<exists>n>0. num_quantizers self = Some (int n))"
  shows "\<exists>z_q loss encoding_indices.
           forward_call self a = Inr (z_q, loss, encoding_indices) \<and>
           wf_tensor z_q \<and> wf_tensor encoding_indices \<and>
           (\<not> use_residual self \<longrightarrow> shape z_q = shape (arg_tensor a))"
proof -
  let ?z = "arg_tensor a"
  from assms(2) have c: "forward_call self a = forward self ?z" by (simp add: forward_call_def)
  have "\<exists>z_q loss idx. forward_body self ?z = Inr (z_q, loss, idx) \<and> wf_tensor idx"
  proof (cases "use_residual self")
    case False
    from quantize_ok[OF assms(1,3,4,5)] obtain z_q loss idx where
      q: "quantize self ?z = Inr (z_q, loss, idx)"
      and ok: "stage_ok b t (embed_dim self) (z_q, loss, idx)" by (metis prod_cases3)
    from q False have "forward_body self ?z = Inr (z_q, loss, idx)"
      by (simp add: forward_body_def)
    with ok show ?thesis by (simp add: stage_ok_def)
  next
    case True
    with assms(6) obtain n where n: "0 < n" "num_quantizers self = Some (int n)" by blast
    from forward_body_residual[OF assms(1,3,4,5) True n(2,1)] show ?thesis by blast
  qed
  then obtain z_q loss idx where
    fb: "forward_body self ?z = Inr (z_q, loss, idx)" and wi: "wf_tensor idx" by blast
  from forward_shape[OF assms(4) fb] c wi show ?thesis by auto
qed

theorem forward_returns_triple_witness:
  "wf_quantizer vq_example \<and> arg_view_ok (contiguous z_example) \<and>
   shape (arg_tensor (contiguous z_example)) = [1, 2, embed_dim vq_example] \<and>
   wf_tensor (arg_tensor (contiguous z_example)) \<and> 0 < embed_dim vq_example \<and>
   \<not> use_residual vq_example \<and>
   (\<exists>z_q loss encoding_indices.
      forward_call vq_example (contiguous z_example) = Inr (z_q, loss, encoding_indices) \<and>
      wf_tensor z_q \<and> wf_tensor encoding_indices \<and> shape z_q = shape z_example) \<and>
   wf_quantizer vq_residual_example \<and> use_residual vq_residual_example \<and>
   (0::nat) < 2 \<and> num_quantizers vq_residual_example = Some (int 2) \<and>
   (\<exists>z_q loss encoding_indices.
      forward_call vq_residual_example (contiguous z_example)
        = Inr (z_q, loss, encoding_indices) \<and>
      wf_tensor z_q \<and> wf_tensor encoding_indices)"
proof -
  have v: "arg_view_ok (contiguous z_example)" "arg_tensor (contiguous z_example) = z_example"
    by (simp_all add: contiguous_def)
  have e: "wf_quantizer vq_example"
    "shape (arg_tensor (contiguous z_example)) = [1, 2, embed_dim vq_example]"
    "wf_tensor (arg_tensor (contiguous z_example))" "0 < embed_dim vq_example"
    using example_hyps by (simp_all add: v(2))
  have nr: "\<not> use_residual vq_example" by (simp add: vq_example_def)
  then have "use_residual vq_example \<longrightarrow> (\<exists>n>0. num_quantizers vq_example = Some (int n))"
    by simp
  from forward_returns_triple[OF e(1) v(1) e(2,3,4) this] nr
  have a: "\<exists>z_q loss encoding_indices.
      forward_call vq_example (contiguous z_example) = Inr (z_q, loss, encoding_indices) \<and>
      wf_tensor z_q \<and> wf_tensor encoding_indices \<and> shape z_q = shape z_example"
    by (simp add: v(2))
  note h = residual_example_hyps
  have h2: "shape (arg_tensor (contiguous z_example)) = [1, 2, embed_dim vq_residual_example]"
    using h(2) by (simp add: v(2))
  have "(0::nat) < 2" by simp
  with h(5) have "use_residual vq_residual_example \<longrightarrow>
      (\<exists>n>0. num_quantizers vq_residual_example = Some (int n))" by blast
  from forward_returns_triple[OF h(1) v(1) h2 e(3) h(3) this]
  have b: "\<exists>z_q loss encoding_indices.
      forward_call vq_residual_example (contiguous z_example)
        = Inr (z_q, loss, encoding_indices) \<and>
      wf_tensor z_q \<and> wf_tensor encoding_indices" by blast
  from a b nr h e v(1) show ?thesis by simp
qed

section \<open>What \<^verbatim>\<open>forward\<close> writes to\<close>

lemma frame_refl [simp]: "frame n h h"
  by (simp add: frame_def)

lemma frame_trans: "frame n h h1 \<Longrightarrow> frame n h1 h2 \<Longrightarrow> frame n h h2"
  by (auto simp: frame_def)

lemma frame_alloc:
  "alloc x h = (r, h') \<Longrightarrow> n \<le> fresh h \<Longrightarrow>
     frame n h h' \<and> addr r = fresh h \<and> rshape r = shape x \<and> fresh h' = Suc (fresh h)"
  by (auto simp: alloc_def frame_def)

lemma frame_overwrite: "n \<le> addr r \<Longrightarrow> frame n h (overwrite r x h)"
  by (simp add: overwrite_def frame_def)

lemma fresh_overwrite [simp]: "fresh (overwrite r x h) = fresh h"
  by (simp add: overwrite_def)

lemma frame_quantize_h:
  assumes "quantize_h self wref z h = (out, h')" and "n \<le> fresh h"
  shows "frame n h h'"
proof (cases "quantize (self\<lparr>weight := deref h wref\<rparr>) (deref h z)")
  case (Inl e)
  with assms show ?thesis by (simp add: quantize_h_def)
next
  case (Inr res)
  obtain q l i where res: "res = (q, l, i)" by (cases res)
  obtain r h1 where a: "alloc q h = (r, h1)" by (cases "alloc q h")
  with Inr res assms(1) have "h' = h1" by (simp add: quantize_h_def)
  with frame_alloc[OF a assms(2)] show ?thesis by simp
qed

lemma frame_residual_loop_h:
  assumes "residual_loop_h self wref k z_q residual ls is h = (out, h')"
    and "n \<le> fresh h" and "n \<le> addr z_q" and "n \<le> addr residual"
  shows "frame n h h'"
  using assms
proof (induction k arbitrary: ls "is" h)
  case 0
  then show ?case by simp
next
  case (Suc k)
  obtain c h1 where c: "clone residual h = (c, h1)" by (cases "clone residual h")
  from c Suc.prems(2) have f1: "frame n h h1" and n1: "n \<le> fresh h1"
    using frame_alloc[of "deref h residual" h c h1 n] by (auto simp: clone_def frame_def)
  obtain o2 h2 where q: "quantize_h self wref c h1 = (o2, h2)"
    by (cases "quantize_h self wref c h1")
  from frame_quantize_h[OF q n1] have f2: "frame n h1 h2" .
  with n1 have n2: "n \<le> fresh h2" by (simp add: frame_def)
  show ?case
  proof (cases o2)
    case (Inl e)
    with Suc.prems(1) c q have "h' = h2" by simp
    with f1 f2 show ?thesis by (auto intro: frame_trans)
  next
    case (Inr res)
    obtain z_qi l i where res: "res = (z_qi, l, i)" by (cases res)
    let ?h3 = "sub_inplace residual z_qi h2"
    let ?h4 = "add_inplace z_q z_qi ?h3"
    have f3: "frame n h2 ?h3" using Suc.prems(4) by (simp add: sub_inplace_def frame_overwrite)
    have f4: "frame n ?h3 ?h4" using Suc.prems(3) by (simp add: add_inplace_def frame_overwrite)
    have n4: "n \<le> fresh ?h4" using n2 by (simp add: add_inplace_def sub_inplace_def)
    from Suc.prems(1) c q Inr res
    have "residual_loop_h self wref k z_q residual (ls @ [l]) (is @ [i]) ?h4 = (out, h')"
      by (simp add: Let_def)
    from Suc.IH[OF this n4 Suc.prems(3,4)] have "frame n ?h4 h'" .
    with f1 f2 f3 f4 show ?thesis by (blast intro: frame_trans)
  qed
qed

lemma frame_forward_h:
  assumes "forward_h self wref z h = (out, h')"
  shows "frame (fresh h) h h'"
proof -
  let ?n = "fresh h"
  let ?branch = "if \<not> use_residual self then quantize_h self wref z h
         else
           (case num_quantizers self of
              None \<Rightarrow> (Inl TypeError, h)
            | Some k \<Rightarrow>
                (let (z_q, h1) = zeros_like_h z h;
                     (residual, h2) = clone (detach z) h1
                 in case residual_loop_h self wref (nat k) z_q residual [] [] h2 of
                      (Inl e, h3) \<Rightarrow> (Inl e, h3)
                    | (Inr (losses, encoding_indices), h3) \<Rightarrow>
                        (bind_err (stack_scalars losses) (\<lambda>losses'.
                         bind_err (stack_last encoding_indices) (\<lambda>encoding_indices'.
                           Inr (z_q, mean_scalars losses', encoding_indices'))), h3)))"
  obtain ob hb where b: "?branch = (ob, hb)" by (cases ?branch)
  have fb: "frame ?n h hb"
  proof (cases "use_residual self")
    case False
    with b have "quantize_h self wref z h = (ob, hb)" by simp
    then show ?thesis by (rule frame_quantize_h) simp
  next
    case True
    show ?thesis
    proof (cases "num_quantizers self")
      case None
      with True b show ?thesis by simp
    next
      case (Some k)
      obtain z_q h1 where z: "zeros_like_h z h = (z_q, h1)" by (cases "zeros_like_h z h")
      obtain residual h2 where r: "clone (detach z) h1 = (residual, h2)"
        by (cases "clone (detach z) h1")
      obtain o3 h3 where l: "residual_loop_h self wref (nat k) z_q residual [] [] h2 = (o3, h3)"
        by (cases "residual_loop_h self wref (nat k) z_q residual [] [] h2")
      from z have a1: "frame ?n h h1" "addr z_q = fresh h" "fresh h1 = Suc (fresh h)"
        using frame_alloc[of "zeros_like (deref h z)" h z_q h1 ?n] by (simp_all add: zeros_like_h_def)
      from r a1 have a2: "frame ?n h1 h2" "addr residual = fresh h1" "fresh h2 = Suc (fresh h1)"
        using frame_alloc[of "deref h1 (detach z)" h1 residual h2 ?n] by (simp_all add: clone_def)
      from a1 a2 have "?n \<le> fresh h2" "?n \<le> addr z_q" "?n \<le> addr residual" by simp_all
      from frame_residual_loop_h[OF l this] have a3: "frame ?n h2 h3" .
      from True Some z r l b have "hb = h3"
        by (auto simp: Let_def split: sum.splits prod.splits)
      with a1 a2 a3 show ?thesis by (blast intro: frame_trans)
    qed
  qed
  have "frame ?n hb h'"
  proof (cases ob)
    case (Inl e)
    with assms b show ?thesis unfolding forward_h_def by simp
  next
    case (Inr res)
    obtain q l i where res: "res = (q, l, i)" by (cases res)
    show ?thesis
    proof (cases "straight_through self")
      case False
      with assms b Inr res show ?thesis unfolding forward_h_def by simp
    next
      case True
      obtain q' h'' where a: "alloc (tadd (deref hb z) (tsub (deref hb q) (deref hb z))) hb = (q', h'')"
        by (cases "alloc (tadd (deref hb z) (tsub (deref hb q) (deref hb z))) hb")
      from fb have "?n \<le> fresh hb" by (simp add: frame_def)
      from frame_alloc[OF a this] have "frame ?n hb h''" by simp
      moreover from assms b Inr res True a have "h' = h''" unfolding forward_h_def by simp
      ultimately show ?thesis by simp
    qed
  qed
  with fb show ?thesis by (rule frame_trans)
qed

text \<open>The store model computes what \<open>forward\<close> computes: the tensors behind the
  references it returns are the values of the function \<open>forward\<close>.\<close>

lemma deref_alloc: "alloc x h = (r, h') \<Longrightarrow> deref h' r = x"
  by (auto simp: alloc_def deref_def)

lemma deref_frame: "frame n h h' \<Longrightarrow> addr r < n \<Longrightarrow> deref h' r = deref h r"
  by (simp add: frame_def deref_def)

lemma deref_overwrite_same: "shape x = rshape r \<Longrightarrow> deref (overwrite r x h) r = x"
  by (cases x) (simp add: overwrite_def deref_def)

lemma deref_overwrite_other: "addr r' \<noteq> addr r \<Longrightarrow> deref (overwrite r x h) r' = deref h r'"
  by (simp add: overwrite_def deref_def)

lemma shape_deref [simp]: "shape (deref h r) = rshape r"
  by (simp add: deref_def)

lemma quantize_h_refines:
  assumes "quantize_h self wref z h = (out, h')"
  shows "frame (fresh h) h h' \<and>
         (case out of
            Inl e \<Rightarrow> quantize (self\<lparr>weight := deref h wref\<rparr>) (deref h z) = Inl e
          | Inr (r, l, i) \<Rightarrow>
              quantize (self\<lparr>weight := deref h wref\<rparr>) (deref h z) = Inr (deref h' r, l, i) \<and>
              addr r = fresh h \<and> fresh h' = Suc (fresh h))"
proof (cases "quantize (self\<lparr>weight := deref h wref\<rparr>) (deref h z)")
  case (Inl e)
  with assms show ?thesis by (auto simp: quantize_h_def)
next
  case (Inr res)
  obtain q l i where res: "res = (q, l, i)" by (cases res)
  obtain r h1 where a: "alloc q h = (r, h1)" by (cases "alloc q h")
  with Inr res assms have o: "out = Inr (r, l, i)" "h' = h1" by (simp_all add: quantize_h_def)
  from frame_alloc[OF a, of "fresh h"] deref_alloc[OF a] Inr res o show ?thesis by simp
qed

lemma residual_loop_h_refines:
  assumes "residual_loop_h self wref k z_q residual ls is h = (out, h')"
    and "addr z_q < fresh h" "addr residual < fresh h" "addr wref < fresh h"
    and "addr z_q \<noteq> addr residual" "addr wref \<noteq> addr z_q" "addr wref \<noteq> addr residual"
  shows "case out of
           Inl e \<Rightarrow>
             residual_loop (self\<lparr>weight := deref h wref\<rparr>) k
               (deref h z_q, deref h residual, ls, is) = Inl e
         | Inr (ls', is') \<Rightarrow>
             residual_loop (self\<lparr>weight := deref h wref\<rparr>) k
               (deref h z_q, deref h residual, ls, is)
             = Inr (deref h' z_q, deref h' residual, ls', is')"
  using assms(1-4)
proof (induction k arbitrary: ls "is" h)
  case 0
  then show ?case by auto
next
  case (Suc k)
  let ?self = "\<lambda>h. self\<lparr>weight := deref h wref\<rparr>"
  obtain c h1 where c: "clone residual h = (c, h1)" by (cases "clone residual h")
  then have al: "alloc (deref h residual) h = (c, h1)" by (simp add: clone_def)
  from frame_alloc[OF al, of "fresh h"] have f1: "frame (fresh h) h h1"
    and fr1: "fresh h1 = Suc (fresh h)" by simp_all
  have dc: "deref h1 c = deref h residual" by (rule deref_alloc[OF al])
  have dw1: "deref h1 wref = deref h wref" by (rule deref_frame[OF f1 Suc.prems(4)])
  obtain o2 h2 where q: "quantize_h self wref c h1 = (o2, h2)"
    by (cases "quantize_h self wref c h1")
  note qr = quantize_h_refines[OF q, unfolded dc dw1]
  show ?case
  proof (cases o2)
    case (Inl e)
    with Suc.prems(1) c q have "out = Inl e" by simp
    with qr Inl show ?thesis by simp
  next
    case (Inr res)
    obtain z_qi l i where res: "res = (z_qi, l, i)" by (cases res)
    from qr Inr res have
      pq: "quantize (?self h) (deref h residual) = Inr (deref h2 z_qi, l, i)"
      and az: "addr z_qi = fresh h1" and fr2: "fresh h2 = Suc (fresh h1)"
      and f2: "frame (fresh h1) h1 h2" by simp_all
    from f1 f2 fr1 have f12: "frame (fresh h) h h2" by (auto simp: frame_def)
    let ?qi = "deref h2 z_qi"
    let ?h3 = "sub_inplace residual z_qi h2"
    let ?h4 = "add_inplace z_q z_qi ?h3"
    have d2: "deref h2 residual = deref h residual" "deref h2 z_q = deref h z_q"
      "deref h2 wref = deref h wref"
      using deref_frame[OF f12] Suc.prems by simp_all
    have neq: "addr z_qi \<noteq> addr residual" "addr z_qi \<noteq> addr z_q"
      using az fr1 Suc.prems by simp_all
    have r3: "deref ?h3 residual = tsub (deref h residual) ?qi"
      by (simp add: sub_inplace_def d2 deref_overwrite_same tsub_def)
    have q3: "deref ?h3 z_q = deref h z_q" "deref ?h3 z_qi = ?qi" "deref ?h3 wref = deref h wref"
      using assms(5,7) neq by (simp_all add: sub_inplace_def deref_overwrite_other d2)
    have q4: "deref ?h4 z_q = tadd (deref h z_q) ?qi"
      by (simp add: add_inplace_def q3 deref_overwrite_same tadd_def)
    have r4: "deref ?h4 residual = tsub (deref h residual) ?qi" "deref ?h4 wref = deref h wref"
      using assms(5,6) by (simp_all add: add_inplace_def deref_overwrite_other r3 q3)
    have fr4: "fresh ?h4 = Suc (Suc (fresh h))"
      by (simp add: add_inplace_def sub_inplace_def fr2 fr1)
    from Suc.prems(1) c q Inr res
    have rec: "residual_loop_h self wref k z_q residual (ls @ [l]) (is @ [i]) ?h4 = (out, h')"
      by (simp add: Let_def)
    have "case out of
           Inl e \<Rightarrow>
             residual_loop (?self ?h4) k (deref ?h4 z_q, deref ?h4 residual, ls @ [l], is @ [i]) = Inl e
         | Inr (ls', is') \<Rightarrow>
             residual_loop (?self ?h4) k (deref ?h4 z_q, deref ?h4 residual, ls @ [l], is @ [i])
             = Inr (deref h' z_q, deref h' residual, ls', is')"
      by (rule Suc.IH[OF rec]) (use Suc.prems fr4 in simp_all)
    then show ?thesis by (cases out) (simp_all add: q4 r4 pq)
  qed
qed

lemma forward_h_refines:
  assumes fh: "forward_h self wref z h = (out, h')"
    and az: "addr z < fresh h" and aw: "addr wref < fresh h"
  shows "case out of
           Inl e \<Rightarrow> forward (self\<lparr>weight := deref h wref\<rparr>) (deref h z) = Inl e
         | Inr (q, l, i) \<Rightarrow>
             forward (self\<lparr>weight := deref h wref\<rparr>) (deref h z) = Inr (deref h' q, l, i)"
proof -
  let ?self = "self\<lparr>weight := deref h wref\<rparr>"
  let ?z = "deref h z"
  let ?branch = "if \<not> use_residual self then quantize_h self wref z h
         else
           (case num_quantizers self of
              None \<Rightarrow> (Inl TypeError, h)
            | Some k \<Rightarrow>
                (let (z_q, h1) = zeros_like_h z h;
                     (residual, h2) = clone (detach z) h1
                 in case residual_loop_h self wref (nat k) z_q residual [] [] h2 of
                      (Inl e, h3) \<Rightarrow> (Inl e, h3)
                    | (Inr (losses, encoding_indices), h3) \<Rightarrow>
                        (bind_err (stack_scalars losses) (\<lambda>losses'.
                         bind_err (stack_last encoding_indices) (\<lambda>encoding_indices'.
                           Inr (z_q, mean_scalars losses', encoding_indices'))), h3)))"
  obtain ob hb where b: "?branch = (ob, hb)" by (cases ?branch)
  have body: "frame (fresh h) h hb \<and>
      (case ob of
         Inl e \<Rightarrow> forward_body ?self ?z = Inl e
       | Inr (q, l, i) \<Rightarrow> forward_body ?self ?z = Inr (deref hb q, l, i))"
  proof (cases "use_residual self")
    case False
    with b have q: "quantize_h self wref z h = (ob, hb)" by simp
    from quantize_h_refines[OF q] False show ?thesis
      by (cases ob) (auto simp: forward_body_def)
  next
    case True
    show ?thesis
    proof (cases "num_quantizers self")
      case None
      with True b show ?thesis by (auto simp: forward_body_def)
    next
      case (Some k)
      obtain z_q h1 where zq: "zeros_like_h z h = (z_q, h1)" by (cases "zeros_like_h z h")
      obtain residual h2 where r: "clone (detach z) h1 = (residual, h2)"
        by (cases "clone (detach z) h1")
      obtain o3 h3 where l: "residual_loop_h self wref (nat k) z_q residual [] [] h2 = (o3, h3)"
        by (cases "residual_loop_h self wref (nat k) z_q residual [] [] h2")
      from zq have al1: "alloc (zeros_like ?z) h = (z_q, h1)" by (simp add: zeros_like_h_def)
      from frame_alloc[OF al1, of "fresh h"]
      have a1: "frame (fresh h) h h1" "addr z_q = fresh h" "fresh h1 = Suc (fresh h)" by simp_all
      have z1: "deref h1 z = ?z" by (rule deref_frame[OF a1(1) az])
      from r have al2: "alloc ?z h1 = (residual, h2)" by (simp add: clone_def detach_def z1)
      from frame_alloc[OF al2, of "fresh h1"]
      have a2: "frame (fresh h1) h1 h2" "addr residual = fresh h1" "fresh h2 = Suc (fresh h1)"
        by simp_all
      from a1 a2 have f02: "frame (fresh h) h h2" by (auto simp: frame_def)
      have d2: "deref h2 residual = ?z" by (rule deref_alloc[OF al2])
      have "deref h1 z_q = zeros_like ?z" by (rule deref_alloc[OF al1])
      moreover have "deref h2 z_q = deref h1 z_q"
        by (rule deref_frame[OF a2(1)]) (simp add: a1)
      ultimately have dq2: "deref h2 z_q = zeros_like ?z" by simp
      have dw2: "deref h2 wref = deref h wref" by (rule deref_frame[OF f02 aw])
      have "case o3 of
           Inl e \<Rightarrow>
             residual_loop (self\<lparr>weight := deref h2 wref\<rparr>) (nat k)
               (deref h2 z_q, deref h2 residual, [], []) = Inl e
         | Inr (ls', is') \<Rightarrow>
             residual_loop (self\<lparr>weight := deref h2 wref\<rparr>) (nat k)
               (deref h2 z_q, deref h2 residual, [], [])
             = Inr (deref h3 z_q, deref h3 residual, ls', is')"
        by (rule residual_loop_h_refines[OF l]) (use a1 a2 aw in simp_all)
      then have lp: "case o3 of
           Inl e \<Rightarrow> residual_loop ?self (nat k) (zeros_like ?z, ?z, [], []) = Inl e
         | Inr (ls', is') \<Rightarrow>
             residual_loop ?self (nat k) (zeros_like ?z, ?z, [], [])
             = Inr (deref h3 z_q, deref h3 residual, ls', is')"
        unfolding dw2 dq2 d2 .
      from frame_residual_loop_h[OF l, of "fresh h"] a1 a2
      have f3: "frame (fresh h) h2 h3" by simp
      with f02 have f03: "frame (fresh h) h h3" by (rule frame_trans)
      show ?thesis
      proof (cases o3)
        case (Inl e)
        with True Some zq r l b have "ob = Inl e" "hb = h3" by simp_all
        with lp Inl True Some f03 show ?thesis by (simp add: forward_body_def)
      next
        case (Inr res)
        obtain ls' is' where res: "res = (ls', is')" by (cases res)
        let ?out = "bind_err (stack_scalars ls') (\<lambda>losses'.
                         bind_err (stack_last is') (\<lambda>encoding_indices'.
                           Inr (z_q, mean_scalars losses', encoding_indices')))"
        from True Some zq r l b Inr res have o: "ob = ?out" "hb = h3" by simp_all
        from lp Inr res have
          pl: "residual_loop ?self (nat k) (zeros_like ?z, ?z, [], [])
                = Inr (deref h3 z_q, deref h3 residual, ls', is')" by simp
        have pure: "forward_body ?self ?z =
            bind_err (stack_scalars ls') (\<lambda>losses'.
              bind_err (stack_last is') (\<lambda>encoding_indices'.
                Inr (deref h3 z_q, mean_scalars losses', encoding_indices')))"
          using True Some by (simp add: forward_body_def pl)
        show ?thesis
          unfolding o pure using f03
          by (cases "stack_scalars ls'"; cases "stack_last is'") simp_all
      qed
    qed
  qed
  from body have fb: "frame (fresh h) h hb" by simp
  then have zb: "deref hb z = ?z" by (rule deref_frame) (rule az)
  show ?thesis
  proof (cases ob)
    case (Inl e)
    with fh b have "out = Inl e" unfolding forward_h_def by simp
    with body Inl show ?thesis by (simp add: forward_def)
  next
    case (Inr res)
    obtain q l i where res: "res = (q, l, i)" by (cases res)
    from body Inr res have pb: "forward_body ?self ?z = Inr (deref hb q, l, i)" by simp
    show ?thesis
    proof (cases "straight_through self")
      case False
      with fh b Inr res have "out = Inr (q, l, i)" "h' = hb" unfolding forward_h_def by simp_all
      with pb False show ?thesis by (simp add: forward_def)
    next
      case True
      obtain q' h'' where a: "alloc (tadd (deref hb z) (tsub (deref hb q) (deref hb z))) hb = (q', h'')"
        by (cases "alloc (tadd (deref hb z) (tsub (deref hb q) (deref hb z))) hb")
      from fh b Inr res True a have o: "out = Inr (q', l, i)" "h' = h''"
        unfolding forward_h_def by simp_all
      from deref_alloc[OF a] have "deref h'' q' = tadd ?z (tsub (deref hb q) ?z)" by (simp add: zb)
      with o pb True show ?thesis by (simp add: forward_def)
    qed
  qed
qed

lemma store_example_hyps:
  "addr zref_example < fresh store_example" "addr wref_example < fresh store_example"
  "deref store_example wref_example = weight vq_residual_example"
  "deref store_example zref_example = z_example"
  by (simp_all add: zref_example_def wref_example_def store_example_def deref_def
      vq_residual_example_def vq_example_def z_example_def)

lemmas store_eval =
  forward_h_def quantize_h_def zeros_like_h_def clone_def detach_def alloc_def deref_def
  sub_inplace_def add_inplace_def overwrite_def Let_def

lemma residual_loop_h_two:
  "residual_loop_h self wref 2 = residual_loop_h self wref (Suc (Suc 0))"
  by (simp add: numeral_2_eq_2)

lemma forward_h_example:
  "fst (forward_h vq_residual_example wref_example zref_example store_example) =
     Inr (\<lparr> addr = 8, rshape = [1, 2, 2] \<rparr>, Some (1 / 32), Tensor [1, 2, 2] [1, 0, 0, 0]) \<and>
   cells (snd (forward_h vq_residual_example wref_example zref_example store_example)) 3
     = Some [- 1 / 10, - 1 / 5, 1 / 10, - 1 / 5] \<and>
   cells (snd (forward_h vq_residual_example wref_example zref_example store_example)) 8
     = Some [1, 1, 0, 0]"
  by (simp add: vq_residual_example_def vq_example_def wref_example_def zref_example_def
      store_example_def store_eval residual_loop_h_two forward_eval quantize_eval)

text \<open>
  Claim C9. \<^verbatim>\<open>forward\<close> writes neither to its input \<open>z\<close> nor to
  \<^verbatim>\<open>embedding.weight\<close>: whatever the call returns or raises, every storage allocated
  before the call holds afterwards what it held before. \<^verbatim>\<open>sub_\<close> and \<^verbatim>\<open>add_\<close> write
  to the storages of \<open>residual\<close> and \<open>z_q\<close>, which \<^verbatim>\<open>clone\<close> and \<^verbatim>\<open>zeros_like\<close>
  allocate during the call, and the straight-through line allocates its result.
\<close>

theorem forward_leaves_input_and_weights:
  assumes "forward_h self wref z h = (out, h')"
    and "addr z < fresh h" and "addr wref < fresh h"
  shows "deref h' z = deref h z \<and> deref h' wref = deref h wref \<and>
         (\<forall>a<fresh h. cells h' a = cells h a)"
  using frame_forward_h[OF assms(1)] assms(2,3) by (simp add: frame_def deref_def)

theorem forward_leaves_input_and_weights_witness:
  "addr zref_example < fresh store_example \<and> addr wref_example < fresh store_example \<and>
   deref (snd (forward_h vq_residual_example wref_example zref_example store_example)) zref_example
     = deref store_example zref_example \<and>
   deref (snd (forward_h vq_residual_example wref_example zref_example store_example)) wref_example
     = deref store_example wref_example \<and>
   cells (snd (forward_h vq_residual_example wref_example zref_example store_example)) 0
     = cells store_example 0"
proof -
  have "(0::nat) < fresh store_example" by (simp add: store_example_def)
  with forward_leaves_input_and_weights[OF surjective_pairing store_example_hyps(1,2),
      of vq_residual_example] store_example_hyps(1,2)
  show ?thesis by simp
qed

section \<open>Facts about the quantizer over any arithmetic\<close>

lemma length_F_normalize_vec_fp [simp]: "length (F_normalize_vec_fp A v) = length v"
  by (simp add: F_normalize_vec_fp_def)

lemma norm_vec_fp_True [simp]: "norm_vec_fp A True = F_normalize_vec_fp A"
  by (rule ext) (simp add: norm_vec_fp_def)

lemma norm_vec_fp_False [simp]: "norm_vec_fp A False = (\<lambda>v. v)"
  by (rule ext) (simp add: norm_vec_fp_def)

lemma length_norm_vec_fp [simp]: "length (norm_vec_fp A u v) = length v"
  by (simp add: norm_vec_fp_def)

lemma shape_norm_fn_fp [simp]: "shape (norm_fn_fp A u t) = shape t"
  by (simp add: norm_fn_fp_def F_normalize_fp_def)

lemma vectors_norm_fn_fp:
  assumes "wf_tensor t" "shape t \<noteq> []"
  shows "vectors (norm_fn_fp A u t) = map (norm_vec_fp A u) (vectors t)"
proof (cases u)
  case False
  then show ?thesis by (simp add: norm_fn_fp_def)
next
  case True
  from assms(2) have sh: "shape t = butlast (shape t) @ [inner_dim (shape t)]"
    by (simp add: inner_dim_def)
  have "vectors (Tensor (butlast (shape t) @ [inner_dim (shape t)])
          (concat (map (F_normalize_vec_fp A) (vectors t)))) = map (F_normalize_vec_fp A) (vectors t)"
    using assms by (intro vectors_concat) (auto simp: length_vector_in)
  with sh True show ?thesis by (simp add: norm_fn_fp_def F_normalize_fp_def)
qed

lemma norm_fn_fp_concat:
  assumes "\<forall>x \<in> set xss. length x = D" and "length xss = prod_list s"
  shows "norm_fn_fp A u (Tensor (s @ [D]) (concat xss))
       = Tensor (s @ [D]) (concat (map (norm_vec_fp A u) xss))"
proof (cases u)
  case True
  then show ?thesis using vectors_concat[OF assms]
    by (simp add: norm_fn_fp_def F_normalize_fp_def)
next
  case False
  then show ?thesis by (simp add: norm_fn_fp_def)
qed

lemma argmin_from_fp_bound:
  "best < i \<Longrightarrow> argmin_from_fp A xs i best bv < i + length xs"
proof (induction xs arbitrary: i best bv)
  case Nil
  then show ?case by simp
next
  case (Cons x xs)
  have a: "argmin_from_fp A xs (Suc i) i x < Suc i + length xs"
    by (rule Cons.IH) simp
  have b: "argmin_from_fp A xs (Suc i) best bv < Suc i + length xs"
    by (rule Cons.IH) (use Cons.prems in simp)
  from a b show ?case by simp
qed

lemma argmin_vec_fp_bound: "xs \<noteq> [] \<Longrightarrow> argmin_vec_fp A xs < length xs"
  using argmin_from_fp_bound[of 0 1] by (cases xs) (auto simp: argmin_vec_fp_def)

lemma argmin_from_fp_spec:
  assumes tr: "\<And>x y z. less_op A x y \<Longrightarrow> less_op A y z \<Longrightarrow> less_op A x z"
    and irr: "\<And>x. \<not> less_op A x x"
    and "best < length pre" "pre ! best = bv" "\<forall>j<length pre. \<not> less_op A (pre ! j) bv"
  shows "\<forall>j<length (pre @ xs).
           \<not> less_op A ((pre @ xs) ! j) ((pre @ xs) ! argmin_from_fp A xs (length pre) best bv)"
  using assms(3-5)
proof (induction xs arbitrary: pre best bv)
  case Nil
  then show ?case by auto
next
  case (Cons x xs)
  show ?case
  proof (cases "less_op A x bv")
    case True
    have "length pre < length (pre @ [x])" by simp
    moreover have "(pre @ [x]) ! length pre = x" by simp
    moreover have "\<forall>j<length (pre @ [x]). \<not> less_op A ((pre @ [x]) ! j) x"
    proof (intro allI impI)
      fix j assume "j < length (pre @ [x])"
      then consider "j < length pre" | "j = length pre" by force
      then show "\<not> less_op A ((pre @ [x]) ! j) x"
      proof cases
        case 1
        with Cons.prems have n: "\<not> less_op A (pre ! j) bv" by simp
        have "\<not> less_op A (pre ! j) x"
        proof
          assume "less_op A (pre ! j) x"
          from tr[OF this True] n show False by simp
        qed
        with 1 show ?thesis by (simp add: nth_append)
      next
        case 2
        have "\<not> less_op A x x" by (rule irr)
        with 2 show ?thesis by simp
      qed
    qed
    ultimately have "\<forall>j<length ((pre @ [x]) @ xs).
        \<not> less_op A (((pre @ [x]) @ xs) ! j)
           (((pre @ [x]) @ xs) ! argmin_from_fp A xs (length (pre @ [x])) (length pre) x)"
      by (rule Cons.IH)
    with True show ?thesis by simp
  next
    case False
    have "best < length (pre @ [x])" using Cons.prems by simp
    moreover have "(pre @ [x]) ! best = bv" using Cons.prems by (simp add: nth_append)
    moreover have "\<forall>j<length (pre @ [x]). \<not> less_op A ((pre @ [x]) ! j) bv"
      using Cons.prems False by (auto simp: nth_append less_Suc_eq)
    ultimately have "\<forall>j<length ((pre @ [x]) @ xs).
        \<not> less_op A (((pre @ [x]) @ xs) ! j)
           (((pre @ [x]) @ xs) ! argmin_from_fp A xs (length (pre @ [x])) best bv)"
      by (rule Cons.IH)
    with False show ?thesis by simp
  qed
qed

lemma wf_weight_rows_fp:
  assumes "wf_quantizer_fp self"
  shows "length (code_rows_fp A self) = fp_n_embed self"
    and "\<forall>e \<in> set (code_rows_fp A self). length e = fp_embed_dim self"
    and "n < fp_n_embed self \<Longrightarrow>
           code_rows_fp A self ! n = norm_vec_fp A (fp_use_norm self) (row (fp_weight self) n)"
proof -
  from assms have sh: "shape (fp_weight self) = [fp_n_embed self, fp_embed_dim self]"
    and wf: "wf_tensor (fp_weight self)" by (simp_all add: wf_quantizer_fp_def)
  show "length (code_rows_fp A self) = fp_n_embed self" by (simp add: code_rows_fp_def sh)
  show "\<forall>e \<in> set (code_rows_fp A self). length e = fp_embed_dim self"
    using length_vector_in[OF wf] sh by (auto simp: code_rows_fp_def inner_dim_def)
  show "code_rows_fp A self ! n = norm_vec_fp A (fp_use_norm self) (row (fp_weight self) n)"
    if "n < fp_n_embed self"
    using that by (simp add: code_rows_fp_def sh vectors_nth row_def)
qed

lemma vectors_weight_norm_fp:
  assumes "wf_quantizer_fp self"
  shows "vectors (norm_fn_fp A (fp_use_norm self) (fp_weight self)) = code_rows_fp A self"
  using assms by (simp add: code_rows_fp_def wf_quantizer_fp_def vectors_norm_fn_fp)

lemma input_rows_fp_props:
  assumes "shape z = [b, t, fp_embed_dim self]" "wf_tensor z" "0 < fp_embed_dim self"
  shows "view_rows (fp_embed_dim self) z = Inr (Tensor [b * t, fp_embed_dim self] (data z))"
    and "vectors (norm_fn_fp A (fp_use_norm self) (Tensor [b * t, fp_embed_dim self] (data z)))
           = input_rows_fp A self z"
    and "length (input_rows_fp A self z) = b * t"
    and "k < b * t \<Longrightarrow> input_rows_fp A self z ! k = input_row_fp A self z k"
proof -
  from assms have len: "length (data z) = b * t * fp_embed_dim self"
    by (simp add: wf_tensor_def)
  with assms(3) have dv: "length (data z) div fp_embed_dim self = b * t" by simp
  show "view_rows (fp_embed_dim self) z = Inr (Tensor [b * t, fp_embed_dim self] (data z))"
    using len assms(3) by (simp add: view_rows_def)
  have "wf_tensor (Tensor [b * t, fp_embed_dim self] (data z))" by (simp add: wf_tensor_def len)
  then show "vectors (norm_fn_fp A (fp_use_norm self) (Tensor [b * t, fp_embed_dim self] (data z)))
      = input_rows_fp A self z"
    by (simp add: vectors_norm_fn_fp input_rows_fp_def dv)
  show "length (input_rows_fp A self z) = b * t" by (simp add: input_rows_fp_def dv)
  show "input_rows_fp A self z ! k = input_row_fp A self z k" if "k < b * t"
    using that by (simp add: input_rows_fp_def input_row_fp_def dv vectors_nth inner_dim_def)
qed

lemma nearest_fp_bound:
  assumes "wf_quantizer_fp self"
  shows "nearest_fp A self zr < fp_n_embed self"
proof -
  have "map (dist_entry_fp A zr) (code_rows_fp A self) \<noteq> []"
    using assms wf_weight_rows_fp(1)[OF assms, of A] by (auto simp: wf_quantizer_fp_def)
  from argmin_vec_fp_bound[OF this] show ?thesis
    by (simp add: nearest_fp_def wf_weight_rows_fp(1)[OF assms])
qed

lemma quantize_fp_closed:
  assumes wf: "wf_quantizer_fp self" and sh: "shape z = [b, t, fp_embed_dim self]"
    and wz: "wf_tensor z" and D: "0 < fp_embed_dim self"
  shows "\<exists>loss. quantize_fp A self z =
           Inr (Tensor [b, t, fp_embed_dim self]
                  (concat (map (\<lambda>zr. norm_vec_fp A (fp_use_norm self)
                                  (row (fp_weight self) (nearest_fp A self zr)))
                     (input_rows_fp A self z))),
                loss,
                Tensor [b, t] (map (nearest_fp A self) (input_rows_fp A self z)))"
proof -
  let ?D = "fp_embed_dim self" and ?N = "fp_n_embed self" and ?u = "fp_use_norm self"
  let ?zs = "input_rows_fp A self z" and ?es = "code_rows_fp A self"
  let ?zr = "Tensor [b * t, ?D] (data z)"
  let ?W = "fp_weight self"
  from wf have shw: "shape ?W = [?N, ?D]" and N: "0 < ?N"
    by (simp_all add: wf_quantizer_fp_def)
  note ir = input_rows_fp_props[OF sh wz D]
  note wr = wf_weight_rows_fp[OF wf]
  have dist: "distances_fp A (norm_fn_fp A ?u ?zr) (norm_fn_fp A ?u ?W) =
      Inr (Tensor ([b * t] @ [?N]) (concat (map (\<lambda>zr. map (dist_entry_fp A zr) ?es) ?zs)))"
    by (simp add: distances_fp_def shw inner_dim_def ir(2,3) vectors_weight_norm_fp[OF wf] wr(1))
  have vd: "vectors (Tensor ([b * t] @ [?N]) (concat (map (\<lambda>zr. map (dist_entry_fp A zr) ?es) ?zs)))
      = map (\<lambda>zr. map (dist_entry_fp A zr) ?es) ?zs"
    by (rule vectors_concat) (auto simp: wr(1) ir(3))
  have am: "argmin_last_fp A (Tensor ([b * t] @ [?N]) (concat (map (\<lambda>zr. map (dist_entry_fp A zr) ?es) ?zs)))
      = Inr (Tensor [b * t] (map (nearest_fp A self) ?zs))"
    using N by (simp add: argmin_last_fp_def inner_dim_def vd nearest_fp_def comp_def del: append.simps)
  have vw: "view_args (take 2 (shape z)) (Tensor (shape (Tensor [b * t] (map (nearest_fp A self) ?zs)) @ [1])
        (data (Tensor [b * t] (map (nearest_fp A self) ?zs))))
      = Inr (Tensor [b, t] (map (nearest_fp A self) ?zs))"
    by (simp add: view_args_def view_def sh ir(3))
  have el: "embedding_lookup_fp ?W (Tensor [b, t] (map (nearest_fp A self) ?zs))
      = Inr (Tensor ([b, t] @ [?D]) (concat (map (row ?W) (map (nearest_fp A self) ?zs))))"
    by (simp add: embedding_lookup_fp_def shw inner_dim_def nearest_fp_bound[OF wf])
  have rl: "\<forall>x \<in> set (map (row ?W) (map (nearest_fp A self) ?zs)). length x = ?D"
  proof
    fix x assume "x \<in> set (map (row ?W) (map (nearest_fp A self) ?zs))"
    then obtain n where n: "n < ?N" and x: "x = row ?W n"
      using nearest_fp_bound[OF wf] by auto
    from wr(2,3) n wr(1)
    have "length (norm_vec_fp A ?u (row ?W n)) = ?D"
      by (metis nth_mem)
    with x show "length x = ?D" by simp
  qed
  have ln: "length (map (row ?W) (map (nearest_fp A self) ?zs)) = prod_list [b, t]"
    by (simp add: ir(3))
  have v2: "view (shape z) (Tensor ([b, t] @ [?D]) (concat (map (row ?W) (map (nearest_fp A self) ?zs))))
      = Inr (Tensor ([b, t] @ [?D]) (concat (map (row ?W) (map (nearest_fp A self) ?zs))))"
    using length_concat_uniform[OF rl] by (simp add: view_def sh ir(3))
  have nq: "norm_fn_fp A ?u (Tensor ([b, t] @ [?D]) (concat (map (row ?W) (map (nearest_fp A self) ?zs))))
      = Tensor ([b, t] @ [?D]) (concat (map (norm_vec_fp A ?u) (map (row ?W) (map (nearest_fp A self) ?zs))))"
    by (rule norm_fn_fp_concat[OF rl ln])
  show ?thesis
    unfolding quantize_fp_def ir(1) bind_err_simps Let_def dist am vw el v2 nq
    by (simp add: comp_def)
qed











lemma forward_body_fp_straight_through [simp]:
  "forward_body_fp A (self\<lparr>fp_straight_through := v\<rparr>) z = forward_body_fp A self z"
proof -
  have q: "quantize_fp A (self\<lparr>fp_straight_through := v\<rparr>) x = quantize_fp A self x" for x
    by (simp add: quantize_fp_def)
  have l: "residual_loop_fp A (self\<lparr>fp_straight_through := v\<rparr>) n st
      = residual_loop_fp A self n st" for n st
    by (induction n arbitrary: st) (auto simp: q)
  show ?thesis by (simp add: forward_body_fp_def q l split: option.splits)
qed





section \<open>Rounding to float32\<close>

lemma pow2_powr: "pow2 k = 2 powr (of_int k)"
  by (simp add: pow2_def powr_int)

lemma fl32_eval:
  assumes "pow2 k \<le> \<bar>x\<bar>" and "\<bar>x\<bar> < pow2 (k + 1)"
  shows "fl32 x = of_int (round_even (x / pow2 (k - 23))) * pow2 (k - 23)"
proof -
  have "0 < pow2 k" by (simp add: pow2_def)
  with assms(1) have pos: "0 < \<bar>x\<bar>" by linarith
  then have nz: "x \<noteq> 0" by auto
  have "\<lfloor>log 2 \<bar>x\<bar>\<rfloor> = k"
    using assms pos by (subst floor_log_eq_powr_iff) (simp_all add: pow2_powr)
  with nz show ?thesis by (simp add: fl32_def)
qed

lemma fl32_zero [simp]: "fl32 0 = 0"
  by (simp add: fl32_def)




lemmas quantize_fp_eval =
  quantize_fp_def view_rows_def norm_fn_fp_def distances_fp_def vectors_def inner_dim_def
  argmin_last_fp_def argmin_vec_fp_def view_args_def view_def embedding_lookup_fp_def row_def
  tsquare_fp_def tsub_fp_def tadd_fp_def Let_def


lemma fl32_v15:
  "fl32 100000000 = 100000000"
  "fl32 100020001 = 100020000"
  "fl32 100020000 = 100020000"
  "fl32 100010000 = 100010000"
  "fl32 (399960001 / 4) = 99990000"
  "fl32 99990000 = 99990000"
  "fl32 99995000 = 99995000"
  by (subst fl32_eval[where k = 26]; simp add: pow2_def round_even_def)+

lemma fl32_v15':
  "fl32 200020000 = 200020000"
  "fl32 199990000 = 199990000"
  by (subst fl32_eval[where k = 27]; simp add: pow2_def round_even_def)+

section \<open>The index that \<^verbatim>\<open>quantize\<close> returns\<close>

lemma quantize_fp_example15:
  "map_sum id (snd \<circ> snd) (quantize_fp f32 vq15_example z15_example)
     = Inr (Tensor [1, 1] [0])"
  by (simp add: vq15_example_def z15_example_def quantize_fp_eval f32_def dist_entry_fp_def
      fsum32_def upt_2 fl32_v15 fl32_v15')

text \<open>
  Claim C2, as stated: the returned index is that of a codebook entry at minimal squared
  Euclidean distance from the input row. In float32, with the codebook rows \<open>10001\<close> and
  \<open>9999.5\<close> and the input \<open>10000\<close>, the squares and products are rounded to multiples of 8
  and of 16, both computed values \<open>d\<^sub>0\<close> and \<open>d\<^sub>1\<close> are 0, and \<^verbatim>\<open>quantize\<close> returns the index
  0 of the row at distance 1, while row 1 is at distance 0.5.
\<close>

theorem argmin_not_nearest_in_float32:
  "map_sum id (snd \<circ> snd) (quantize_fp f32 vq15_example z15_example)
     = Inr (Tensor [1, 1] [0]) \<and>
   row (fp_weight vq15_example) 0 = [10001] \<and>
   row (fp_weight vq15_example) 1 = [19999 / 2] \<and>
   sq_sum (map2 (-) [10000] [19999 / 2]) < sq_sum (map2 (-) [10000] [10001])"
  using quantize_fp_example15
  by (simp add: vq15_example_def row_def inner_dim_def sq_sum_def power2_eq_square)

text \<open>
  Claim C2, amended: for an input of shape \<open>(b, t, embed_dim)\<close> the index returned for
  every input row is below \<^verbatim>\<open>n_embed\<close> and is an argmin of the values
  \<open>d\<^sub>n = \<parallel>z\<parallel>\<^sup>2 + \<parallel>e\<^sub>n\<parallel>\<^sup>2 - 2 (z \<cdot> e\<^sub>n)\<close> as the code computes them: for no \<open>n\<close> does \<^verbatim>\<open>argmin\<close>
  prefer the computed \<open>d\<^sub>n\<close> to the one of the returned index. This holds in every
  arithmetic whose comparison is transitive and irreflexive.
\<close>

theorem quantize_fp_index_is_argmin:
  assumes "wf_quantizer_fp self" and "shape z = [b, t, fp_embed_dim self]"
    and "wf_tensor z" and "0 < fp_embed_dim self"
    and "\<forall>x y z. less_op A x y \<longrightarrow> less_op A y z \<longrightarrow> less_op A x z"
    and "\<forall>x. \<not> less_op A x x"
  shows "\<exists>z_q loss encoding_indices.
           quantize_fp A self z = Inr (z_q, loss, encoding_indices) \<and>
           length (data encoding_indices) = b * t \<and>
           (\<forall>k<b * t. \<forall>n<fp_n_embed self.
              data encoding_indices ! k < fp_n_embed self \<and>
              \<not> less_op A
                  (dist_entry_fp A (input_row_fp A self z k) (code_row_fp A self n))
                  (dist_entry_fp A (input_row_fp A self z k)
                     (code_row_fp A self (data encoding_indices ! k))))"
proof -
  let ?zs = "input_rows_fp A self z" and ?es = "code_rows_fp A self"
  from quantize_fp_closed[OF assms(1-4), of A] obtain z_q loss where
    q: "quantize_fp A self z = Inr (z_q, loss, Tensor [b, t] (map (nearest_fp A self) ?zs))"
    by blast
  note ir = input_rows_fp_props[OF assms(2,3,4)]
  note wr = wf_weight_rows_fp[OF assms(1)]
  let ?idx = "Tensor [b, t] (map (nearest_fp A self) ?zs)"
  have main: "data ?idx ! k < fp_n_embed self \<and>
      \<not> less_op A (dist_entry_fp A (input_row_fp A self z k) (code_row_fp A self n))
           (dist_entry_fp A (input_row_fp A self z k) (code_row_fp A self (data ?idx ! k)))"
    if k: "k < b * t" and n: "n < fp_n_embed self" for k n
  proof -
    let ?zr = "input_row_fp A self z k"
    let ?ds = "map (dist_entry_fp A ?zr) ?es"
    have zk: "?zs ! k = ?zr" by (rule ir(4)[OF k])
    have ne: "?ds \<noteq> []" using n wr(1)[of A] by auto
    obtain d0 rest where ds: "?ds = d0 # rest" using ne by (cases ?ds) auto
    have b1: "argmin_vec_fp A ?ds < fp_n_embed self"
      using argmin_vec_fp_bound[OF ne, of A] by (simp add: wr(1))
    have "\<forall>j<length ([d0] @ rest).
           \<not> less_op A (([d0] @ rest) ! j)
               (([d0] @ rest) ! argmin_from_fp A rest (length [d0]) 0 d0)"
      by (rule argmin_from_fp_spec) (use assms(5,6) in auto)
    then have b2: "\<forall>j<length ?ds. \<not> less_op A (?ds ! j) (?ds ! argmin_vec_fp A ?ds)"
      by (simp add: ds argmin_vec_fp_def)
    have e: "?es ! m = code_row_fp A self m" if "m < fp_n_embed self" for m
      using wr(3)[OF that] by (simp add: code_row_fp_def)
    from b2 n have "\<not> less_op A (?ds ! n) (?ds ! argmin_vec_fp A ?ds)" by (simp add: wr(1))
    with b1 n have le: "\<not> less_op A (dist_entry_fp A ?zr (code_row_fp A self n))
        (dist_entry_fp A ?zr (code_row_fp A self (argmin_vec_fp A ?ds)))"
      by (simp add: wr(1) e)
    have "data ?idx ! k = argmin_vec_fp A ?ds"
      using k by (simp add: ir(3) zk nearest_fp_def)
    with b1 le show ?thesis by simp
  qed
  show ?thesis
    unfolding q using main by (intro exI conjI) (rule refl, simp add: ir(3), blast)
qed

lemma example15_hyps:
  "wf_quantizer_fp vq15_example" "shape z15_example = [1, 1, fp_embed_dim vq15_example]"
  "wf_tensor z15_example" "0 < fp_embed_dim vq15_example"
  by (simp_all add: vq15_example_def z15_example_def wf_quantizer_fp_def wf_tensor_def)

theorem quantize_fp_index_is_argmin_witness:
  "wf_quantizer_fp vq15_example \<and> shape z15_example = [1, 1, fp_embed_dim vq15_example] \<and>
   wf_tensor z15_example \<and> 0 < fp_embed_dim vq15_example \<and>
   (\<exists>z_q loss encoding_indices.
      quantize_fp f32 vq15_example z15_example = Inr (z_q, loss, encoding_indices) \<and>
      data encoding_indices ! 0 < fp_n_embed vq15_example \<and>
      \<not> less_op f32
          (dist_entry_fp f32 (input_row_fp f32 vq15_example z15_example 0)
             (code_row_fp f32 vq15_example 1))
          (dist_entry_fp f32 (input_row_fp f32 vq15_example z15_example 0)
             (code_row_fp f32 vq15_example (data encoding_indices ! 0))))"
proof -
  have tr: "\<forall>x y z. less_op f32 x y \<longrightarrow> less_op f32 y z \<longrightarrow> less_op f32 x z"
    and irr: "\<forall>x. \<not> less_op f32 x x" by (auto simp: f32_def)
  from quantize_fp_index_is_argmin[OF example15_hyps tr irr]
  obtain z_q loss encoding_indices where
    q: "quantize_fp f32 vq15_example z15_example = Inr (z_q, loss, encoding_indices)" and
    a: "\<forall>k<1 * 1. \<forall>n<fp_n_embed vq15_example.
       data encoding_indices ! k < fp_n_embed vq15_example \<and>
       \<not> less_op f32
          (dist_entry_fp f32 (input_row_fp f32 vq15_example z15_example k)
             (code_row_fp f32 vq15_example n))
          (dist_entry_fp f32 (input_row_fp f32 vq15_example z15_example k)
             (code_row_fp f32 vq15_example (data encoding_indices ! k)))"
    by blast
  have "(0::nat) < 1 * 1" and "1 < fp_n_embed vq15_example" by (simp_all add: vq15_example_def)
  with a have
    "data encoding_indices ! 0 < fp_n_embed vq15_example \<and>
       \<not> less_op f32
          (dist_entry_fp f32 (input_row_fp f32 vq15_example z15_example 0)
             (code_row_fp f32 vq15_example 1))
          (dist_entry_fp f32 (input_row_fp f32 vq15_example z15_example 0)
             (code_row_fp f32 vq15_example (data encoding_indices ! 0)))"
    by blast
  with q show ?thesis using example15_hyps by (intro conjI exI) auto
qed

section \<open>The rows returned with \<^verbatim>\<open>use_norm\<close>\<close>



section \<open>The straight-through line\<close>







section \<open>Residual quantization\<close>







section \<open>\<^verbatim>\<open>GumbelQuantizer.__init__\<close>\<close>

text \<open>
  Claim C5. Constructing a GumbelQuantizer is claimed to succeed for any valid
  \<^verbatim>\<open>embed_dim\<close> and \<^verbatim>\<open>n_embed\<close>. The constructor reads the name
  \<^verbatim>\<open>straight_through\<close>, which is neither a parameter nor a global of the module: every
  call raises NameError, whatever the arguments.
\<close>

theorem GumbelQuantizer_init_raises:
  "GumbelQuantizer_init embed_dim' n_embed' temp_init' kl_weight' use_norm' use_residual'
     num_quantizers' kwargs w0 = Inl (NameError ''straight_through'')"
  by (simp add: GumbelQuantizer_init_def lookup_name_def module_globals_def)

end
